theory Spec2Isabelle
  imports Complex_Main
begin

section \<open>The decimal substrate (sdk.Dec, sdk.Int)\<close>

text \<open>
  Modelled from the spec: the decimal type \<open>sdk.Dec\<close> is an external collaborator
  (section 2 of the specification: an arbitrary-precision decimal with add, sub, mul and
  quo and deterministic rounding); its code is not part of the repository.  A decimal is
  represented by its big-integer mantissa: the value times \<open>10^18\<close> (18 fractional
  digits).  Addition and subtraction are exact.  Multiplication and division round the
  18th fractional digit half-to-even (\<open>chopPrecisionAndRound\<close>).  Division goes through
  the truncating quotient of big integers, which aborts the program with a run-time panic
  when the divisor is zero.  The mantissa is unbounded, as the spec describes the type;
  the bit-length limit of the SDK's decimals, far above any token amount, is not part of
  the model.
\<close>

type_synonym dec = int

datatype VoteOption = OptionEmpty | OptionYes | OptionAbstain | OptionNo | OptionNoWithVeto

definition precisionReuse :: int where
  "precisionReuse = 10 ^ 18"

definition fivePrecision :: int where
  "fivePrecision = 5 * 10 ^ 17"

text \<open>The truncating quotient of big integers (rounds towards zero).\<close>

definition bigQuo :: "int \<Rightarrow> int \<Rightarrow> int" where
  "bigQuo x y = sgn x * sgn y * (\<bar>x\<bar> div \<bar>y\<bar>)"

definition chopPrecisionAndRound :: "int \<Rightarrow> int" where
  "chopPrecisionAndRound d =
     (let a = \<bar>d\<bar>;
          quo = a div precisionReuse;
          rem = a mod precisionReuse;
          r = (if rem = 0 then quo
               else if rem < fivePrecision then quo
               else if rem > fivePrecision then quo + 1
               else if even quo then quo else quo + 1)
      in if d < 0 then - r else r)"

definition ZeroDec :: dec where
  "ZeroDec = 0"

definition OneDec :: dec where
  "OneDec = precisionReuse"

definition NewDec :: "int \<Rightarrow> dec" where
  "NewDec i = i * precisionReuse"

definition NewDecWithPrec :: "int \<Rightarrow> nat \<Rightarrow> dec" where
  "NewDecWithPrec i prec = i * 10 ^ (18 - prec)"

definition Add :: "dec \<Rightarrow> dec \<Rightarrow> dec" where
  "Add d d2 = d + d2"

definition Sub :: "dec \<Rightarrow> dec \<Rightarrow> dec" where
  "Sub d d2 = d - d2"

definition Mul :: "dec \<Rightarrow> dec \<Rightarrow> dec" where
  "Mul d d2 = chopPrecisionAndRound (d * d2)"

definition RoundInt :: "dec \<Rightarrow> int" where
  "RoundInt d = chopPrecisionAndRound d"

text \<open>The exact rational value a decimal stands for.\<close>

definition val :: "dec \<Rightarrow> rat" where
  "val d = of_int d / 10 ^ 18"

section \<open>Data model of the distribution engine\<close>

type_synonym voteMap = "VoteOption \<Rightarrow> dec"

record amtDetail =
  AtomAmt :: dec
  Multiplier :: dec
  BonusMalus :: dec
  Factor :: dec
  AtoneAmt :: dec

record airdropDetail =
  YesDetail :: amtDetail
  NoDetail :: amtDetail
  NWVDetail :: amtDetail
  AbsDetail :: amtDetail
  DnvDetail :: amtDetail
  LiquidDetail :: amtDetail
  Total :: dec

record distrib =
  "supply" :: dec
  votes :: voteMap
  unstaked :: dec

record distriParams =
  yesVotesMultiplier :: dec
  noVotesMultiplier :: dec
  bonus :: dec
  malus :: dec
  supplyFactor :: dec
  supplyMintFactor :: dec

text \<open>
  The result aggregate.  The Go struct literal that starts \<open>distribution\<close> leaves
  \<open>nonVotersMultiplier\<close>, \<open>communityPool\<close> and \<open>reservedAddr\<close> unset; the first is
  assigned before it is read or returned; the other two are assigned only after the second
  loop, so these two are optional here (\<open>None\<close> is the unset decimal).
\<close>

record airdrop =
  params :: distriParams
  addresses :: "string \<rightharpoonup> int"
  addressesDetail :: "string \<rightharpoonup> airdropDetail"
  nonVotersMultiplier :: dec
  atom :: distrib
  atone :: distrib
  icfSlash :: dec
  communityPool :: "dec option"
  reservedAddr :: "dec option"

text \<open>
  Modelled from the spec: the type \<open>Account\<close> and its method \<open>voteWeights()\<close> are
  declared outside the given sources.  An account carries its address, its liquid and
  staked amounts, and the result of \<open>voteWeights()\<close>: a weight for each of the five vote
  options (section 4.1 of the specification; every option is present).
\<close>

record Account =
  Address :: string
  LiquidAmount :: dec
  StakedAmount :: dec
  voteWeights :: voteMap

text \<open>
  The two functions of the SDK that \<open>convertBech32\<close> calls are external; they are
  parameters of the model.  Each returns its value together with an optional error, as
  the Go functions do.
\<close>

record sdk =
  GetFromBech32 :: "string \<Rightarrow> string \<Rightarrow> nat list \<times> string option"
  Bech32ifyAddressBytes :: "string \<Rightarrow> nat list \<Rightarrow> string \<times> string option"

datatype error =
  GetFromBech32Error string string
| Bech32ifyAddressBytesError string string

datatype panic = DivisionByZero | WRONG airdropDetail

datatype outcome = Panicked panic | Returned airdrop "error option"

datatype step = Next airdrop | Stop outcome

section \<open>Operations\<close>

definition Quo :: "dec \<Rightarrow> dec \<Rightarrow> panic + dec" where
  "Quo d d2 =
     (if d2 = 0 then Inl DivisionByZero
      else Inr (chopPrecisionAndRound (bigQuo (d * precisionReuse * precisionReuse) d2)))"

definition icfWallets :: "string list" where
  "icfWallets =
     [''cosmos1z8mzakma7vnaajysmtkwt4wgjqr2m84tzvyfkz'',
      ''cosmos1unc788q8md2jymsns24eyhua58palg5kc7cstv'',
      ''cosmos1sufkm72dw7ua9crpfhhp0dqpyuggtlhdse98e7'',
      ''cosmos1z6czaavlk6kjd48rpf58kqqw9ssad2uaxnazgl'',
      ''cosmos17u903qxqc6dzn3chvmc9zzp9fl4xja0pwggfj7'']"

text \<open>
  \<open>defaultDistriParams\<close>: the last field is \<open>OneDec().Quo(NewDec(9))\<close>, whose value is
  written out (lemma \<open>supplyMintFactor_default\<close> below).
\<close>

definition defaultDistriParams :: distriParams where
  "defaultDistriParams =
     \<lparr>yesVotesMultiplier = OneDec,
      noVotesMultiplier = NewDec 4,
      bonus = NewDecWithPrec 103 2,
      malus = NewDecWithPrec 97 2,
      supplyFactor = NewDecWithPrec 1 1,
      supplyMintFactor = 111111111111111111\<rparr>"

definition convertBech32 :: "sdk \<Rightarrow> string \<Rightarrow> string \<Rightarrow> string \<Rightarrow> error + string" where
  "convertBech32 lib addr src dst =
     (case GetFromBech32 lib addr src of
        (sdkAddr, Some err) \<Rightarrow> Inl (GetFromBech32Error addr err)
      | (sdkAddr, None) \<Rightarrow>
          (case Bech32ifyAddressBytes lib dst sdkAddr of
             (addr', Some err) \<Rightarrow> Inl (Bech32ifyAddressBytesError addr' err)
           | (addr', None) \<Rightarrow> Inr addr'))"

definition newVoteMap :: voteMap where
  "newVoteMap = (\<lambda>v. ZeroDec)"

definition voteMap_add :: "voteMap \<Rightarrow> VoteOption \<Rightarrow> dec \<Rightarrow> voteMap" where
  "voteMap_add m v d = m(v := Add (m v) d)"

text \<open>The body of the first loop of \<open>distribution\<close>: the source-token aggregates.\<close>

definition pass1_body :: "distrib \<Rightarrow> Account \<Rightarrow> distrib" where
  "pass1_body d acc =
     (let yesAtomAmt = Mul (voteWeights acc OptionYes) (StakedAmount acc);
          noAtomAmt = Mul (voteWeights acc OptionNo) (StakedAmount acc);
          noWithVetoAtomAmt = Mul (voteWeights acc OptionNoWithVeto) (StakedAmount acc);
          abstainAtomAmt = Mul (voteWeights acc OptionAbstain) (StakedAmount acc);
          noVoteAtomAmt = Mul (voteWeights acc OptionEmpty) (StakedAmount acc);
          v1 = voteMap_add (votes d) OptionYes yesAtomAmt;
          v2 = voteMap_add v1 OptionNo noAtomAmt;
          v3 = voteMap_add v2 OptionNoWithVeto noWithVetoAtomAmt;
          v4 = voteMap_add v3 OptionAbstain abstainAtomAmt;
          v5 = voteMap_add v4 OptionEmpty noVoteAtomAmt
      in \<lparr>supply = Add (supply d) (Add (StakedAmount acc) (LiquidAmount acc)),
          votes = v5,
          unstaked = Add (unstaked d) (LiquidAmount acc)\<rparr>)"

fun pass1 :: "distrib \<Rightarrow> Account list \<Rightarrow> distrib" where
  "pass1 d [] = d"
| "pass1 d (acc # accs) = pass1 (pass1_body d acc) accs"

definition zeroDistrib :: distrib where
  "zeroDistrib = \<lparr>supply = ZeroDec, votes = newVoteMap, unstaked = ZeroDec\<rparr>"

text \<open>The solver between the two loops.\<close>

definition targetNonVotersPerc :: dec where
  "targetNonVotersPerc = NewDecWithPrec 33 2"

definition yesAtoneTotalAmt :: "distrib \<Rightarrow> distriParams \<Rightarrow> dec" where
  "yesAtoneTotalAmt d p = Mul (votes d OptionYes) (yesVotesMultiplier p)"

definition noAtoneTotalAmt :: "distrib \<Rightarrow> distriParams \<Rightarrow> dec" where
  "noAtoneTotalAmt d p =
     Mul (Add (votes d OptionNo) (votes d OptionNoWithVeto)) (noVotesMultiplier p)"

definition noVotersAtomTotalAmt :: "distrib \<Rightarrow> dec" where
  "noVotersAtomTotalAmt d =
     Add (Add (votes d OptionAbstain) (votes d OptionEmpty)) (unstaked d)"

definition solveNonVotersMultiplier :: "dec \<Rightarrow> dec \<Rightarrow> dec \<Rightarrow> panic + dec" where
  "solveNonVotersMultiplier yesAmt noAmt noVotersAmt =
     Quo (Mul targetNonVotersPerc (Add yesAmt noAmt))
         (Mul (Sub OneDec targetNonVotersPerc) noVotersAmt)"

text \<open>The per-account amounts of the second loop, as the audit record they end in.\<close>

definition accountDetail :: "distriParams \<Rightarrow> dec \<Rightarrow> Account \<Rightarrow> airdropDetail" where
  "accountDetail p nvm acc =
     (let yesAtomAmt = Mul (voteWeights acc OptionYes) (StakedAmount acc);
          noAtomAmt = Mul (voteWeights acc OptionNo) (StakedAmount acc);
          noWithVetoAtomAmt = Mul (voteWeights acc OptionNoWithVeto) (StakedAmount acc);
          abstainAtomAmt = Mul (voteWeights acc OptionAbstain) (StakedAmount acc);
          noVoteAtomAmt = Mul (voteWeights acc OptionEmpty) (StakedAmount acc);
          yesAirdropAmt = Mul (Mul yesAtomAmt (yesVotesMultiplier p)) (supplyFactor p);
          noAirdropAmt = Mul (Mul noAtomAmt (noVotesMultiplier p)) (supplyFactor p);
          noWithVetoAirdropAmt =
            Mul (Mul (Mul noWithVetoAtomAmt (noVotesMultiplier p)) (bonus p)) (supplyFactor p);
          abstainAirdropAmt = Mul (Mul abstainAtomAmt nvm) (supplyFactor p);
          noVoteAirdropAmt = Mul (Mul (Mul noVoteAtomAmt nvm) (malus p)) (supplyFactor p);
          liquidMultiplier = Mul nvm (malus p);
          liquidAirdropAmt = Mul (Mul (LiquidAmount acc) liquidMultiplier) (supplyFactor p);
          stakedAirdropAmt =
            Add (Add (Add (Add yesAirdropAmt noAirdropAmt) noWithVetoAirdropAmt)
                     abstainAirdropAmt) noVoteAirdropAmt;
          airdropAmt = Add liquidAirdropAmt stakedAirdropAmt
      in \<lparr>YesDetail = \<lparr>AtomAmt = yesAtomAmt, Multiplier = yesVotesMultiplier p,
                         BonusMalus = OneDec, Factor = supplyFactor p,
                         AtoneAmt = yesAirdropAmt\<rparr>,
          NoDetail = \<lparr>AtomAmt = noAtomAmt, Multiplier = noVotesMultiplier p,
                        BonusMalus = OneDec, Factor = supplyFactor p,
                        AtoneAmt = noAirdropAmt\<rparr>,
          NWVDetail = \<lparr>AtomAmt = noWithVetoAtomAmt, Multiplier = noVotesMultiplier p,
                         BonusMalus = bonus p, Factor = supplyFactor p,
                         AtoneAmt = noWithVetoAirdropAmt\<rparr>,
          AbsDetail = \<lparr>AtomAmt = abstainAtomAmt, Multiplier = nvm,
                         BonusMalus = OneDec, Factor = supplyFactor p,
                         AtoneAmt = abstainAirdropAmt\<rparr>,
          DnvDetail = \<lparr>AtomAmt = noVoteAtomAmt, Multiplier = nvm,
                         BonusMalus = malus p, Factor = supplyFactor p,
                         AtoneAmt = noVoteAirdropAmt\<rparr>,
          LiquidDetail = \<lparr>AtomAmt = LiquidAmount acc, Multiplier = nvm,
                            BonusMalus = malus p, Factor = supplyFactor p,
                            AtoneAmt = liquidAirdropAmt\<rparr>,
          Total = airdropAmt\<rparr>)"

text \<open>
  The key under which an account is recorded: its own address, or, when a prefix is
  configured, the address converted from the \<open>cosmos\<close> prefix to that prefix (the
  \<open>if prefix != ""\<close> block of the second loop).
\<close>

definition outputAddr :: "sdk \<Rightarrow> string \<Rightarrow> Account \<Rightarrow> error + string" where
  "outputAddr lib prefix acc =
     (if prefix \<noteq> [] then convertBech32 lib (Address acc) ''cosmos'' prefix
      else Inr (Address acc))"

text \<open>The body of the second loop of \<open>distribution\<close>.\<close>

definition pass2_body :: "sdk \<Rightarrow> string \<Rightarrow> airdrop \<Rightarrow> Account \<Rightarrow> step" where
  "pass2_body lib prefix a acc =
     (if Address acc \<in> set icfWallets then
        Next (a\<lparr>icfSlash := Add (Add (icfSlash a) (LiquidAmount acc)) (StakedAmount acc)\<rparr>)
      else
        let det = accountDetail (params a) (nonVotersMultiplier a) acc;
            yesAirdropAmt = AtoneAmt (YesDetail det);
            noAirdropAmt = AtoneAmt (NoDetail det);
            noWithVetoAirdropAmt = AtoneAmt (NWVDetail det);
            abstainAirdropAmt = AtoneAmt (AbsDetail det);
            noVoteAirdropAmt = AtoneAmt (DnvDetail det);
            liquidAirdropAmt = AtoneAmt (LiquidDetail det);
            airdropAmt = Total det;
            v1 = voteMap_add (votes (atone a)) OptionYes yesAirdropAmt;
            v2 = voteMap_add v1 OptionNo noAirdropAmt;
            v3 = voteMap_add v2 OptionNoWithVeto noWithVetoAirdropAmt;
            v4 = voteMap_add v3 OptionAbstain abstainAirdropAmt;
            v5 = voteMap_add v4 OptionEmpty noVoteAirdropAmt;
            a1 = a\<lparr>atone := \<lparr>supply = Add (supply (atone a)) airdropAmt,
                               votes = v5,
                               unstaked = Add (unstaked (atone a)) liquidAirdropAmt\<rparr>\<rparr>;
            amtInt = RoundInt airdropAmt
        in if amtInt \<noteq> 0 then
             (case outputAddr lib prefix acc of
                Inl err \<Rightarrow> Stop (Returned a1 (Some err))
              | Inr addr \<Rightarrow>
                  let a2 = a1\<lparr>addresses := (addresses a1)(addr \<mapsto> amtInt),
                               addressesDetail := (addressesDetail a1)(addr \<mapsto> det)\<rparr>;
                      amt = Add (Add (Add (Add (Add yesAirdropAmt noAirdropAmt)
                              noWithVetoAirdropAmt) abstainAirdropAmt) noVoteAirdropAmt)
                              liquidAirdropAmt
                  in if amt \<noteq> airdropAmt then Stop (Panicked (WRONG det)) else Next a2)
           else Next a1)"

fun pass2 :: "sdk \<Rightarrow> string \<Rightarrow> airdrop \<Rightarrow> Account list \<Rightarrow> step" where
  "pass2 lib prefix a [] = Next a"
| "pass2 lib prefix a (acc # accs) =
     (case pass2_body lib prefix a acc of
        Next a' \<Rightarrow> pass2 lib prefix a' accs
      | Stop out \<Rightarrow> Stop out)"

text \<open>The minted part, computed after the second loop.\<close>

definition mint :: "airdrop \<Rightarrow> outcome" where
  "mint a =
     (let minted = Mul (supply (atone a)) (supplyMintFactor (params a))
      in case Quo minted (NewDec 2) of
           Inl p \<Rightarrow> Panicked p
         | Inr cp \<Rightarrow>
             (case Quo minted (NewDec 2) of
                Inl p \<Rightarrow> Panicked p
              | Inr ra \<Rightarrow> Returned (a\<lparr>communityPool := Some cp, reservedAddr := Some ra\<rparr>) None))"

definition distribution :: "sdk \<Rightarrow> Account list \<Rightarrow> distriParams \<Rightarrow> string \<Rightarrow> outcome" where
  "distribution lib accounts p prefix =
     (let atom1 = pass1 zeroDistrib accounts
      in case solveNonVotersMultiplier (yesAtoneTotalAmt atom1 p) (noAtoneTotalAmt atom1 p)
                (noVotersAtomTotalAmt atom1) of
           Inl pn \<Rightarrow> Panicked pn
         | Inr nvm \<Rightarrow>
             (case pass2 lib prefix
                     \<lparr>params = p, addresses = Map.empty, addressesDetail = Map.empty,
                      nonVotersMultiplier = nvm, atom = atom1, atone = zeroDistrib,
                      icfSlash = ZeroDec, communityPool = None, reservedAddr = None\<rparr>
                     accounts of
                Stop out \<Rightarrow> out
              | Next a \<Rightarrow> mint a))"

section \<open>Auxiliary notions for the statements\<close>

text \<open>The audit record of the bucket that belongs to a vote option.\<close>

fun bucket :: "VoteOption \<Rightarrow> airdropDetail \<Rightarrow> amtDetail" where
  "bucket OptionYes d = YesDetail d"
| "bucket OptionNo d = NoDetail d"
| "bucket OptionNoWithVeto d = NWVDetail d"
| "bucket OptionAbstain d = AbsDetail d"
| "bucket OptionEmpty d = DnvDetail d"

text \<open>A distrib after the amounts of one audit record have been added to it.\<close>

definition credit :: "distrib \<Rightarrow> airdropDetail \<Rightarrow> distrib" where
  "credit d det =
     \<lparr>supply = supply d + Total det,
      votes = (\<lambda>opt. votes d opt + AtoneAmt (bucket opt det)),
      unstaked = unstaked d + AtoneAmt (LiquidDetail det)\<rparr>"

text \<open>The sum of the five vote buckets and the unstaked part of a distrib.\<close>

definition parts :: "distrib \<Rightarrow> dec" where
  "parts d =
     votes d OptionYes + votes d OptionNo + votes d OptionNoWithVeto + votes d OptionAbstain
     + votes d OptionEmpty + unstaked d"

text \<open>The airdrop value with which the second loop starts.\<close>

definition start :: "distriParams \<Rightarrow> dec \<Rightarrow> distrib \<Rightarrow> airdrop" where
  "start p nvm atom1 =
     \<lparr>params = p, addresses = Map.empty, addressesDetail = Map.empty,
      nonVotersMultiplier = nvm, atom = atom1, atone = zeroDistrib,
      icfSlash = ZeroDec, communityPool = None, reservedAddr = None\<rparr>"

text \<open>An account is skipped by the second loop when its address is an ICF wallet.\<close>

definition slashed :: "Account \<Rightarrow> bool" where
  "slashed acc \<longleftrightarrow> Address acc \<in> set icfWallets"

text \<open>What a caller can read off an outcome.\<close>

fun returned_airdrop :: "outcome \<Rightarrow> airdrop option" where
  "returned_airdrop (Returned a e) = Some a"
| "returned_airdrop (Panicked pn) = None"

fun returned_error :: "outcome \<Rightarrow> error option" where
  "returned_error (Returned a e) = e"
| "returned_error (Panicked pn) = None"

fun returned_addresses :: "outcome \<Rightarrow> string \<Rightarrow> int option" where
  "returned_addresses (Returned a e) k = addresses a k"
| "returned_addresses (Panicked pn) k = None"

fun returned_detail :: "outcome \<Rightarrow> string \<Rightarrow> airdropDetail option" where
  "returned_detail (Returned a e) k = addressesDetail a k"
| "returned_detail (Panicked pn) k = None"

fun returned_atom :: "outcome \<Rightarrow> distrib option" where
  "returned_atom (Returned a e) = Some (atom a)"
| "returned_atom (Panicked pn) = None"

fun returned_atone :: "outcome \<Rightarrow> distrib option" where
  "returned_atone (Returned a e) = Some (atone a)"
| "returned_atone (Panicked pn) = None"

fun succeeded :: "outcome \<Rightarrow> bool" where
  "succeeded (Returned a None) = True"
| "succeeded (Returned a (Some e)) = False"
| "succeeded (Panicked pn) = False"

section \<open>Scenario fixtures\<close>

text \<open>
  A table that stands for the two SDK functions on the addresses used below, and small
  accounts, for the statements that are evaluated on a concrete input.  Each row of the
  table is a valid bech32 address with its prefix and its twenty bytes (the bytes
  1 to 20, 21 to 40 and 41 to 60); on these the table
  gives what the SDK gives: the bytes of an address whose prefix is the expected one, the
  error \<open>invalid Bech32 prefix\<close> for another prefix, and the address of given bytes under
  a given prefix.  A string that is not in the table is not decoded (the short addresses
  of the other accounts below are not valid bech32 either).
\<close>

definition bech32Table :: "(string \<times> string \<times> nat list) list" where
  "bech32Table =
     [(''cosmos1qypqxpq9qcrsszg2pvxq6rs0zqg3yyc5lzv7xu'', ''cosmos'',
         [1..<21]),
      (''atone1qypqxpq9qcrsszg2pvxq6rs0zqg3yyc53zsesy'', ''atone'',
         [1..<21]),
      (''cosmos1z5tpwxqergd3c8g7ruszzg3rysjjvfegg8csw2'', ''cosmos'',
         [21..<41]),
      (''atone1z5tpwxqergd3c8g7ruszzg3rysjjvfegx8yhcj'', ''atone'',
         [21..<41]),
      (''osmo19y4zktpd9chnqvfjxv6r2d3h8qun5weupmkavj'', ''osmo'',
         [41..<61])]"

definition exampleSdk :: sdk where
  "exampleSdk =
     \<lparr>GetFromBech32 =
        (\<lambda>addr src.
           case find (\<lambda>row. fst row = addr) bech32Table of
             None \<Rightarrow> ([], Some ''decoding bech32 failed'')
           | Some (a, hrp, bz) \<Rightarrow>
               if hrp \<noteq> src
               then ([], Some (''invalid Bech32 prefix; expected '' @ src @ '', got '' @ hrp))
               else (bz, None)),
      Bech32ifyAddressBytes =
        (\<lambda>dst bz.
           case find (\<lambda>row. fst (snd row) = dst \<and> snd (snd row) = bz) bech32Table of
             None \<Rightarrow> ([], Some ''encoding bech32 failed'')
           | Some (a, hrp, bz') \<Rightarrow> (a, None))\<rparr>"

definition yesVoter :: Account where
  "yesVoter = \<lparr>Address = ''cosmos1a'', LiquidAmount = ZeroDec, StakedAmount = NewDec 100,
                voteWeights = newVoteMap(OptionYes := OneDec)\<rparr>"

definition nonVoter :: Account where
  "nonVoter = \<lparr>Address = ''cosmos1b'', LiquidAmount = ZeroDec, StakedAmount = NewDec 100,
                voteWeights = newVoteMap(OptionEmpty := OneDec)\<rparr>"

definition yesStaker :: Account where
  "yesStaker = \<lparr>Address = ''cosmos1qypqxpq9qcrsszg2pvxq6rs0zqg3yyc5lzv7xu'',
                 LiquidAmount = ZeroDec, StakedAmount = NewDec 100,
                 voteWeights = newVoteMap(OptionYes := OneDec)\<rparr>"

definition idleStaker :: Account where
  "idleStaker = \<lparr>Address = ''cosmos1z5tpwxqergd3c8g7ruszzg3rysjjvfegg8csw2'',
                  LiquidAmount = ZeroDec, StakedAmount = NewDec 100,
                  voteWeights = newVoteMap(OptionEmpty := OneDec)\<rparr>"

definition foreignVoter :: Account where
  "foreignVoter = \<lparr>Address = ''osmo19y4zktpd9chnqvfjxv6r2d3h8qun5weupmkavj'',
                    LiquidAmount = NewDec 30, StakedAmount = NewDec 70,
                    voteWeights = newVoteMap(OptionNo := OneDec)\<rparr>"

definition icfAccount :: Account where
  "icfAccount = \<lparr>Address = ''cosmos1z8mzakma7vnaajysmtkwt4wgjqr2m84tzvyfkz'',
                  LiquidAmount = NewDec 50, StakedAmount = NewDec 50,
                  voteWeights = newVoteMap(OptionEmpty := OneDec)\<rparr>"

definition dustHolder :: Account where
  "dustHolder = \<lparr>Address = ''cosmos1c'', LiquidAmount = NewDecWithPrec 1 1,
                  StakedAmount = ZeroDec, voteWeights = newVoteMap(OptionEmpty := OneDec)\<rparr>"

definition splitVoter :: Account where
  "splitVoter = \<lparr>Address = ''cosmos1d'', LiquidAmount = NewDec 1, StakedAmount = 3,
                  voteWeights = newVoteMap(OptionYes := NewDecWithPrec 5 1,
                                           OptionNo := NewDecWithPrec 5 1)\<rparr>"

section \<open>Properties of the decimal substrate\<close>

lemma supplyMintFactor_default:
  "Quo OneDec (NewDec 9) = Inr (supplyMintFactor defaultDistriParams)"
  by (simp add: Quo_def OneDec_def NewDec_def defaultDistriParams_def precisionReuse_def
      fivePrecision_def bigQuo_def chopPrecisionAndRound_def Let_def)

lemma chop_minus: "chopPrecisionAndRound (- d) = - chopPrecisionAndRound d"
  by (cases "d = 0") (auto simp: chopPrecisionAndRound_def Let_def)

lemma chop_zero: "chopPrecisionAndRound 0 = 0"
  by (simp add: chopPrecisionAndRound_def)

lemma chop_nonneg_cases:
  assumes "0 \<le> d"
  shows "(d mod precisionReuse \<le> fivePrecision \<and> chopPrecisionAndRound d = d div precisionReuse)
       \<or> (d mod precisionReuse \<ge> fivePrecision \<and> chopPrecisionAndRound d = d div precisionReuse + 1)"
  using assms unfolding chopPrecisionAndRound_def Let_def
  by (auto simp: fivePrecision_def precisionReuse_def)

lemma chop_error_nonneg:
  assumes "0 \<le> d"
  shows "\<bar>chopPrecisionAndRound d * precisionReuse - d\<bar> \<le> fivePrecision"
proof -
  have d: "d = d div precisionReuse * precisionReuse + d mod precisionReuse"
    by simp
  have r: "0 \<le> d mod precisionReuse" "d mod precisionReuse < precisionReuse"
    by (simp_all add: precisionReuse_def)
  have P: "precisionReuse = 2 * fivePrecision"
    by (simp add: precisionReuse_def fivePrecision_def)
  from chop_nonneg_cases[OF assms] show ?thesis
  proof
    assume a: "d mod precisionReuse \<le> fivePrecision \<and> chopPrecisionAndRound d = d div precisionReuse"
    then have "chopPrecisionAndRound d * precisionReuse - d = - (d mod precisionReuse)"
      using d by (metis add_diff_cancel_left' diff_0 diff_diff_eq2 minus_diff_eq add.commute)
    with a r show ?thesis by simp
  next
    assume a: "d mod precisionReuse \<ge> fivePrecision \<and> chopPrecisionAndRound d = d div precisionReuse + 1"
    then have "chopPrecisionAndRound d * precisionReuse - d = precisionReuse - (d mod precisionReuse)"
      using d by (simp add: algebra_simps)
    with a r P show ?thesis by simp
  qed
qed

lemma chop_error: "\<bar>chopPrecisionAndRound d * precisionReuse - d\<bar> \<le> fivePrecision"
proof (cases "0 \<le> d")
  case True then show ?thesis by (rule chop_error_nonneg)
next
  case False
  then have "0 \<le> - d" by simp
  from chop_error_nonneg[OF this] show ?thesis
    by (simp add: chop_minus)
qed

lemma chop_exact: "chopPrecisionAndRound (k * precisionReuse) = k"
  by (cases "k < 0") (auto simp: chopPrecisionAndRound_def Let_def precisionReuse_def abs_mult mult_less_0_iff)

lemma chop_nonzero:
  assumes "fivePrecision < \<bar>d\<bar>"
  shows "chopPrecisionAndRound d \<noteq> 0"
proof
  assume "chopPrecisionAndRound d = 0"
  with chop_error[of d] have "\<bar>d\<bar> \<le> fivePrecision" by simp
  with assms show False by simp
qed

lemma Mul_zero_right: "Mul d 0 = 0"
  by (simp add: Mul_def chop_zero)

lemma Mul_error: "\<bar>Mul a b * precisionReuse - a * b\<bar> \<le> fivePrecision"
  unfolding Mul_def by (rule chop_error)

lemma Mul_067_nonzero:
  assumes "x \<noteq> 0"
  shows "Mul (Sub OneDec targetNonVotersPerc) x \<noteq> 0"
proof -
  have c: "Sub OneDec targetNonVotersPerc = 670000000000000000"
    by (simp add: Sub_def OneDec_def targetNonVotersPerc_def NewDecWithPrec_def precisionReuse_def)
  have "1 \<le> \<bar>x\<bar>" using assms by simp
  then have "670000000000000000 * 1 \<le> 670000000000000000 * \<bar>x\<bar>"
    by (rule mult_left_mono) simp
  then have "fivePrecision < \<bar>670000000000000000 * x\<bar>"
    by (simp add: fivePrecision_def abs_mult)
  then show ?thesis unfolding Mul_def c by (rule chop_nonzero)
qed

lemma Quo_NewDec_2: "\<exists>q. Quo d (NewDec 2) = Inr q"
  by (simp add: Quo_def NewDec_def precisionReuse_def)

section \<open>The first loop: source-token aggregates\<close>

lemma votes_pass1_body:
  "votes (pass1_body d acc) opt = votes d opt + Mul (voteWeights acc opt) (StakedAmount acc)"
  by (cases opt) (simp_all add: pass1_body_def Let_def voteMap_add_def Add_def)

lemma supply_pass1_body:
  "supply (pass1_body d acc) = supply d + (StakedAmount acc + LiquidAmount acc)"
  by (simp add: pass1_body_def Let_def Add_def)

lemma unstaked_pass1_body:
  "unstaked (pass1_body d acc) = unstaked d + LiquidAmount acc"
  by (simp add: pass1_body_def Let_def Add_def)

lemma votes_pass1:
  "votes (pass1 d accs) opt =
     votes d opt + (\<Sum>acc\<leftarrow>accs. Mul (voteWeights acc opt) (StakedAmount acc))"
  by (induction accs arbitrary: d) (simp_all add: votes_pass1_body)

lemma supply_pass1:
  "supply (pass1 d accs) = supply d + (\<Sum>acc\<leftarrow>accs. StakedAmount acc + LiquidAmount acc)"
  by (induction accs arbitrary: d) (simp_all add: supply_pass1_body)

lemma unstaked_pass1:
  "unstaked (pass1 d accs) = unstaked d + (\<Sum>acc\<leftarrow>accs. LiquidAmount acc)"
  by (induction accs arbitrary: d) (simp_all add: unstaked_pass1_body)

section \<open>Panics and the shape of the result\<close>

lemma accountDetail_Total:
  "Total (accountDetail p nvm acc) =
     AtoneAmt (YesDetail (accountDetail p nvm acc)) + AtoneAmt (NoDetail (accountDetail p nvm acc))
     + AtoneAmt (NWVDetail (accountDetail p nvm acc)) + AtoneAmt (AbsDetail (accountDetail p nvm acc))
     + AtoneAmt (DnvDetail (accountDetail p nvm acc)) + AtoneAmt (LiquidDetail (accountDetail p nvm acc))"
  by (simp add: accountDetail_def Let_def Add_def)

lemma pass2_body_no_panic: "pass2_body lib prefix a acc \<noteq> Stop (Panicked pn)"
  by (simp add: pass2_body_def Let_def Add_def accountDetail_Total split: sum.splits)

lemma pass2_no_panic: "pass2 lib prefix a accs \<noteq> Stop (Panicked pn)"
  by (induction accs arbitrary: a) (auto simp: pass2_body_no_panic split: step.splits)

lemma mint_returns: "\<exists>cp ra. mint a = Returned (a\<lparr>communityPool := Some cp, reservedAddr := Some ra\<rparr>) None"
proof -
  obtain q where "Quo (Mul (supply (atone a)) (supplyMintFactor (params a))) (NewDec 2) = Inr q"
    using Quo_NewDec_2 by blast
  then have "mint a = Returned (a\<lparr>communityPool := Some q, reservedAddr := Some q\<rparr>) None"
    by (simp add: mint_def Let_def)
  then show ?thesis by blast
qed

lemma pass2_invariant_fields:
  "pass2 lib prefix a accs = Next a' \<or> pass2 lib prefix a accs = Stop (Returned a' e) \<Longrightarrow>
   params a' = params a \<and> nonVotersMultiplier a' = nonVotersMultiplier a \<and> atom a' = atom a"
proof (induction accs arbitrary: a)
  case Nil
  then show ?case by simp
next
  case (Cons acc accs)
  show ?case
  proof (cases "pass2_body lib prefix a acc")
    case (Next a1)
    then have f: "params a1 = params a \<and> nonVotersMultiplier a1 = nonVotersMultiplier a \<and> atom a1 = atom a"
      by (auto simp: pass2_body_def Let_def split: if_splits sum.splits)
    from Cons.prems Next have "pass2 lib prefix a1 accs = Next a' \<or> pass2 lib prefix a1 accs = Stop (Returned a' e)"
      by simp
    from Cons.IH[OF this] f show ?thesis by simp
  next
    case (Stop out)
    with Cons.prems have "pass2_body lib prefix a acc = Stop (Returned a' e)" by simp
    then show ?thesis
      by (auto simp: pass2_body_def Let_def split: if_splits sum.splits)
  qed
qed

lemma distribution_cases:
  assumes "solveNonVotersMultiplier (yesAtoneTotalAmt (pass1 zeroDistrib accounts) p)
             (noAtoneTotalAmt (pass1 zeroDistrib accounts) p)
             (noVotersAtomTotalAmt (pass1 zeroDistrib accounts)) = Inr nvm"
  shows "\<exists>a e. distribution lib accounts p prefix = Returned a e \<and> nonVotersMultiplier a = nvm
            \<and> params a = p \<and> atom a = pass1 zeroDistrib accounts"
proof (cases "pass2 lib prefix
                 \<lparr>params = p, addresses = Map.empty, addressesDetail = Map.empty,
                  nonVotersMultiplier = nvm, atom = pass1 zeroDistrib accounts, atone = zeroDistrib,
                  icfSlash = ZeroDec, communityPool = None, reservedAddr = None\<rparr> accounts")
  case (Next a)
  from pass2_invariant_fields[OF disjI1, OF Next]
  have f: "params a = p \<and> nonVotersMultiplier a = nvm \<and> atom a = pass1 zeroDistrib accounts" by simp
  obtain cp ra where "mint a = Returned (a\<lparr>communityPool := Some cp, reservedAddr := Some ra\<rparr>) None"
    using mint_returns by blast
  with Next assms f show ?thesis
    by (simp add: distribution_def Let_def)
next
  case (Stop out)
  then obtain a e where out: "out = Returned a e"
    using pass2_no_panic[of lib prefix _ accounts]
    by (cases out) auto
  from pass2_invariant_fields[OF disjI2, of lib prefix _ accounts a e] Stop out
  have f: "params a = p \<and> nonVotersMultiplier a = nvm \<and> atom a = pass1 zeroDistrib accounts" by simp
  with Stop out assms show ?thesis
    by (simp add: distribution_def Let_def)
qed

lemma solve_defined:
  assumes "pool \<noteq> 0"
  shows "\<exists>nvm. solveNonVotersMultiplier y n pool = Inr nvm"
  using Mul_067_nonzero[OF assms] by (simp add: solveNonVotersMultiplier_def Quo_def)

lemma solve_zero_pool: "solveNonVotersMultiplier y n 0 = Inl DivisionByZero"
  by (simp add: solveNonVotersMultiplier_def Quo_def Mul_zero_right)

lemma pass1_zeroDistrib:
  "votes (pass1 zeroDistrib accounts) opt = (\<Sum>acc\<leftarrow>accounts. Mul (voteWeights acc opt) (StakedAmount acc))"
  "unstaked (pass1 zeroDistrib accounts) = (\<Sum>acc\<leftarrow>accounts. LiquidAmount acc)"
  "supply (pass1 zeroDistrib accounts) = (\<Sum>acc\<leftarrow>accounts. StakedAmount acc + LiquidAmount acc)"
  by (simp_all add: votes_pass1 unstaked_pass1 supply_pass1 zeroDistrib_def newVoteMap_def ZeroDec_def)

section \<open>The second loop: per-account allocation\<close>

lemma voteMap_add_chain_at:
  "voteMap_add (voteMap_add (voteMap_add (voteMap_add (voteMap_add m
       OptionYes (AtoneAmt (YesDetail det)))
       OptionNo (AtoneAmt (NoDetail det)))
       OptionNoWithVeto (AtoneAmt (NWVDetail det)))
       OptionAbstain (AtoneAmt (AbsDetail det)))
       OptionEmpty (AtoneAmt (DnvDetail det)) opt
   = m opt + AtoneAmt (bucket opt det)"
  by (cases opt) (simp_all add: voteMap_add_def Add_def)

lemma voteMap_add_chain:
  "voteMap_add (voteMap_add (voteMap_add (voteMap_add (voteMap_add m
       OptionYes (AtoneAmt (YesDetail det)))
       OptionNo (AtoneAmt (NoDetail det)))
       OptionNoWithVeto (AtoneAmt (NWVDetail det)))
       OptionAbstain (AtoneAmt (AbsDetail det)))
       OptionEmpty (AtoneAmt (DnvDetail det))
   = (\<lambda>opt. m opt + AtoneAmt (bucket opt det))"
  by (rule ext) (rule voteMap_add_chain_at)

lemma pass2_body_eq:
  "pass2_body lib prefix a acc =
     (if slashed acc then
        Next (a\<lparr>icfSlash := icfSlash a + LiquidAmount acc + StakedAmount acc\<rparr>)
      else
        let det = accountDetail (params a) (nonVotersMultiplier a) acc;
            a1 = a\<lparr>atone := credit (atone a) det\<rparr>
        in if RoundInt (Total det) = 0 then Next a1
           else case outputAddr lib prefix acc of
                  Inl err \<Rightarrow> Stop (Returned a1 (Some err))
                | Inr k \<Rightarrow>
                    Next (a1\<lparr>addresses := (addresses a)(k \<mapsto> RoundInt (Total det)),
                             addressesDetail := (addressesDetail a)(k \<mapsto> det)\<rparr>))"
  by (simp add: pass2_body_def slashed_def Let_def voteMap_add_chain credit_def
        accountDetail_Total Add_def split: sum.splits)

lemma pass2_append:
  "pass2 lib prefix a (xs @ ys) =
     (case pass2 lib prefix a xs of Next a1 \<Rightarrow> pass2 lib prefix a1 ys | Stop out \<Rightarrow> Stop out)"
  by (induction xs arbitrary: a) (simp_all split: step.splits)

lemma pass2_body_fields:
  assumes "pass2_body lib prefix a acc = Next a' \<or> pass2_body lib prefix a acc = Stop (Returned a' e)"
  shows "params a' = params a \<and> nonVotersMultiplier a' = nonVotersMultiplier a \<and> atom a' = atom a
         \<and> communityPool a' = communityPool a \<and> reservedAddr a' = reservedAddr a"
  using assms by (auto simp: pass2_body_eq Let_def split: if_splits sum.splits)

lemma pass2_Cons_Next:
  assumes "pass2 lib prefix a (acc # accs) = Next a'"
  obtains a1 where "pass2_body lib prefix a acc = Next a1" and "pass2 lib prefix a1 accs = Next a'"
  using assms by (cases "pass2_body lib prefix a acc") simp_all

lemma pass2_sums:
  assumes "pass2 lib prefix a accs = Next a'"
    and "params a = p" and "nonVotersMultiplier a = nvm"
  shows "supply (atone a') = supply (atone a)
           + (\<Sum>acc\<leftarrow>filter (\<lambda>acc. \<not> slashed acc) accs. Total (accountDetail p nvm acc))"
    and "votes (atone a') opt = votes (atone a) opt
           + (\<Sum>acc\<leftarrow>filter (\<lambda>acc. \<not> slashed acc) accs. AtoneAmt (bucket opt (accountDetail p nvm acc)))"
    and "unstaked (atone a') = unstaked (atone a)
           + (\<Sum>acc\<leftarrow>filter (\<lambda>acc. \<not> slashed acc) accs. AtoneAmt (LiquidDetail (accountDetail p nvm acc)))"
    and "icfSlash a' = icfSlash a
           + (\<Sum>acc\<leftarrow>filter slashed accs. LiquidAmount acc + StakedAmount acc)"
  using assms
proof (induction accs arbitrary: a)
  case Nil
  { case 1 then show ?case by simp }
  { case 2 then show ?case by simp }
  { case 3 then show ?case by simp }
  { case 4 then show ?case by simp }
next
  case (Cons acc accs)
  { case 1
    from "1"(1) obtain a1 where b: "pass2_body lib prefix a acc = Next a1"
      and r: "pass2 lib prefix a1 accs = Next a'" by (rule pass2_Cons_Next)
    from pass2_body_fields[OF disjI1, OF b] "1" have f: "params a1 = p" "nonVotersMultiplier a1 = nvm"
      by simp_all
    from Cons.IH(1)[OF r f] b "1"(2,3) show ?case
      by (auto simp: pass2_body_eq Let_def credit_def split: if_splits sum.splits) }
  { case 2
    from "2"(1) obtain a1 where b: "pass2_body lib prefix a acc = Next a1"
      and r: "pass2 lib prefix a1 accs = Next a'" by (rule pass2_Cons_Next)
    from pass2_body_fields[OF disjI1, OF b] "2" have f: "params a1 = p" "nonVotersMultiplier a1 = nvm"
      by simp_all
    from Cons.IH(2)[OF r f] b "2"(2,3) show ?case
      by (auto simp: pass2_body_eq Let_def credit_def split: if_splits sum.splits) }
  { case 3
    from "3"(1) obtain a1 where b: "pass2_body lib prefix a acc = Next a1"
      and r: "pass2 lib prefix a1 accs = Next a'" by (rule pass2_Cons_Next)
    from pass2_body_fields[OF disjI1, OF b] "3" have f: "params a1 = p" "nonVotersMultiplier a1 = nvm"
      by simp_all
    from Cons.IH(3)[OF r f] b "3"(2,3) show ?case
      by (auto simp: pass2_body_eq Let_def credit_def split: if_splits sum.splits) }
  { case 4
    from "4"(1) obtain a1 where b: "pass2_body lib prefix a acc = Next a1"
      and r: "pass2 lib prefix a1 accs = Next a'" by (rule pass2_Cons_Next)
    from pass2_body_fields[OF disjI1, OF b] "4" have f: "params a1 = p" "nonVotersMultiplier a1 = nvm"
      by simp_all
    from Cons.IH(4)[OF r f] b "4"(2,3) show ?case
      by (auto simp: pass2_body_eq Let_def credit_def split: if_splits sum.splits) }
qed

lemma pass2_Cons_cases:
  assumes "pass2 lib prefix a (acc # accs) = Next a' \<or> pass2 lib prefix a (acc # accs) = Stop (Returned a' e)"
  obtains (stop) "pass2_body lib prefix a acc = Stop (Returned a' e)"
  | (continue) a1 where "pass2_body lib prefix a acc = Next a1"
      and "pass2 lib prefix a1 accs = Next a' \<or> pass2 lib prefix a1 accs = Stop (Returned a' e)"
  using assms by (cases "pass2_body lib prefix a acc") auto

lemma pass2_entries:
  assumes "pass2 lib prefix a accs = Next a' \<or> pass2 lib prefix a accs = Stop (Returned a' e)"
    and "params a = p" and "nonVotersMultiplier a = nvm"
  shows "addresses a' k = Some n \<Longrightarrow>
           addresses a k = Some n \<or>
           (\<exists>acc\<in>set accs. \<not> slashed acc \<and> outputAddr lib prefix acc = Inr k \<and>
                n = RoundInt (Total (accountDetail p nvm acc)) \<and> n \<noteq> 0)"
    and "addressesDetail a' k = Some d \<Longrightarrow>
           addressesDetail a k = Some d \<or>
           (\<exists>acc\<in>set accs. \<not> slashed acc \<and> outputAddr lib prefix acc = Inr k \<and>
                d = accountDetail p nvm acc \<and> RoundInt (Total d) \<noteq> 0)"
  using assms
proof (induction accs arbitrary: a)
  case Nil
  { case 1 then show ?case by simp }
  { case 2 then show ?case by simp }
next
  case (Cons acc accs)
  { case 1
    from "1"(2) show ?case
    proof (cases rule: pass2_Cons_cases)
      case stop
      with "1"(1,3,4) show ?thesis
        by (auto simp: pass2_body_eq Let_def split: if_splits sum.splits)
    next
      case (continue a1)
      from pass2_body_fields[OF disjI1, OF continue(1)] "1"
      have f: "params a1 = p" "nonVotersMultiplier a1 = nvm" by simp_all
      from Cons.IH(1)[OF "1"(1) continue(2) f] continue(1) "1"(3,4) show ?thesis
        by (auto simp: pass2_body_eq Let_def split: if_splits sum.splits)
    qed }
  { case 2
    from "2"(2) show ?case
    proof (cases rule: pass2_Cons_cases)
      case stop
      with "2"(1,3,4) show ?thesis
        by (auto simp: pass2_body_eq Let_def split: if_splits sum.splits)
    next
      case (continue a1)
      from pass2_body_fields[OF disjI1, OF continue(1)] "2"
      have f: "params a1 = p" "nonVotersMultiplier a1 = nvm" by simp_all
      from Cons.IH(2)[OF "2"(1) continue(2) f] continue(1) "2"(3,4) show ?thesis
        by (auto simp: pass2_body_eq Let_def split: if_splits sum.splits)
    qed }
qed

lemma pass2_untouched:
  assumes "pass2 lib prefix a accs = Next a'"
    and "\<forall>acc\<in>set accs. outputAddr lib prefix acc \<noteq> Inr k"
  shows "addresses a' k = addresses a k \<and> addressesDetail a' k = addressesDetail a k"
  using assms
proof (induction accs arbitrary: a)
  case Nil
  then show ?case by simp
next
  case (Cons acc accs)
  from Cons.prems(1) obtain a1 where b: "pass2_body lib prefix a acc = Next a1"
    and r: "pass2 lib prefix a1 accs = Next a'" by (rule pass2_Cons_Next)
  from Cons.prems(2) have "\<forall>acc\<in>set accs. outputAddr lib prefix acc \<noteq> Inr k" by simp
  from Cons.IH[OF r this] b Cons.prems(2) show ?case
    by (auto simp: pass2_body_eq Let_def split: if_splits sum.splits)
qed

lemma pass2_last_write:
  assumes run: "pass2 lib prefix a (pre @ acc # post) = Next a'"
    and "params a = p" and "nonVotersMultiplier a = nvm"
    and ns: "\<not> slashed acc"
    and nz: "RoundInt (Total (accountDetail p nvm acc)) \<noteq> 0"
    and key: "outputAddr lib prefix acc = Inr k"
    and later: "\<forall>acc'\<in>set post. outputAddr lib prefix acc' \<noteq> Inr k"
  shows "addresses a' k = Some (RoundInt (Total (accountDetail p nvm acc))) \<and>
         addressesDetail a' k = Some (accountDetail p nvm acc)"
proof -
  from run obtain a0 where pre: "pass2 lib prefix a pre = Next a0"
    and rest: "pass2 lib prefix a0 (acc # post) = Next a'"
    by (auto simp: pass2_append split: step.splits)
  from pass2_invariant_fields[OF disjI1, OF pre] assms(2,3)
  have f: "params a0 = p" "nonVotersMultiplier a0 = nvm" by simp_all
  from rest obtain a1 where b: "pass2_body lib prefix a0 acc = Next a1"
    and r: "pass2 lib prefix a1 post = Next a'" by (rule pass2_Cons_Next)
  from b f ns nz key have "addresses a1 k = Some (RoundInt (Total (accountDetail p nvm acc))) \<and>
         addressesDetail a1 k = Some (accountDetail p nvm acc)"
    by (auto simp: pass2_body_eq Let_def split: if_splits sum.splits)
  with pass2_untouched[OF r later] show ?thesis by simp
qed

lemma parts_credit:
  "parts (credit d (accountDetail p nvm acc)) - supply (credit d (accountDetail p nvm acc))
     = parts d - supply d"
  by (simp add: parts_def credit_def accountDetail_Total)

lemma pass2_body_balance:
  assumes "pass2_body lib prefix a acc = Next a' \<or> pass2_body lib prefix a acc = Stop (Returned a' e)"
  shows "parts (atone a') - supply (atone a') = parts (atone a) - supply (atone a)"
  using assms
  by (auto simp: pass2_body_eq Let_def parts_credit split: if_splits sum.splits)

lemma pass2_balance:
  assumes "pass2 lib prefix a accs = Next a' \<or> pass2 lib prefix a accs = Stop (Returned a' e)"
  shows "parts (atone a') - supply (atone a') = parts (atone a) - supply (atone a)"
  using assms
proof (induction accs arbitrary: a)
  case Nil
  then show ?case by simp
next
  case (Cons acc accs)
  from Cons.prems show ?case
  proof (cases rule: pass2_Cons_cases)
    case stop
    then show ?thesis using pass2_body_balance by blast
  next
    case (continue a1)
    from Cons.IH[OF continue(2)] pass2_body_balance[OF disjI1, OF continue(1)]
    show ?thesis by simp
  qed
qed

lemma pass2_Stop_error: "pass2 lib prefix a accs = Stop out \<Longrightarrow> \<exists>a' e. out = Returned a' (Some e)"
proof (induction accs arbitrary: a)
  case Nil
  then show ?case by simp
next
  case (Cons acc accs)
  show ?case
  proof (cases "pass2_body lib prefix a acc")
    case (Next a1)
    with Cons show ?thesis by simp
  next
    case (Stop out')
    with Cons.prems have "out' = out" by simp
    with Stop show ?thesis
      by (auto simp: pass2_body_eq Let_def split: if_splits sum.splits)
  qed
qed

section \<open>The whole call\<close>

lemma distribution_Returned:
  assumes "distribution lib accounts p prefix = Returned a e"
  obtains (complete) nvm a0 cp where
      "solveNonVotersMultiplier (yesAtoneTotalAmt (pass1 zeroDistrib accounts) p)
         (noAtoneTotalAmt (pass1 zeroDistrib accounts) p)
         (noVotersAtomTotalAmt (pass1 zeroDistrib accounts)) = Inr nvm"
      and "pass2 lib prefix (start p nvm (pass1 zeroDistrib accounts)) accounts = Next a0"
      and "e = None" and "a = a0\<lparr>communityPool := Some cp, reservedAddr := Some cp\<rparr>"
  | (failed) nvm err where
      "solveNonVotersMultiplier (yesAtoneTotalAmt (pass1 zeroDistrib accounts) p)
         (noAtoneTotalAmt (pass1 zeroDistrib accounts) p)
         (noVotersAtomTotalAmt (pass1 zeroDistrib accounts)) = Inr nvm"
      and "pass2 lib prefix (start p nvm (pass1 zeroDistrib accounts)) accounts = Stop (Returned a e)"
      and "e = Some err"
proof (cases "solveNonVotersMultiplier (yesAtoneTotalAmt (pass1 zeroDistrib accounts) p)
         (noAtoneTotalAmt (pass1 zeroDistrib accounts) p)
         (noVotersAtomTotalAmt (pass1 zeroDistrib accounts))")
  case (Inl pn)
  with assms show ?thesis by (simp add: distribution_def Let_def)
next
  case (Inr nvm)
  show ?thesis
  proof (cases "pass2 lib prefix (start p nvm (pass1 zeroDistrib accounts)) accounts")
    case (Next a0)
    obtain q where q: "Quo (Mul (supply (atone a0)) (supplyMintFactor (params a0))) (NewDec 2) = Inr q"
      using Quo_NewDec_2 by blast
    from assms Inr Next q have "e = None" "a = a0\<lparr>communityPool := Some q, reservedAddr := Some q\<rparr>"
      by (simp_all add: distribution_def Let_def start_def mint_def)
    with Inr Next show ?thesis by (rule complete)
  next
    case (Stop out)
    with assms Inr have o: "out = Returned a e"
      by (simp add: distribution_def Let_def start_def)
    from pass2_Stop_error[OF Stop] o obtain err where "e = Some err" by auto
    with Inr Stop o show ?thesis by (auto intro: failed)
  qed
qed

lemma start_fields:
  "params (start p nvm d) = p" "nonVotersMultiplier (start p nvm d) = nvm"
  "addresses (start p nvm d) = Map.empty" "addressesDetail (start p nvm d) = Map.empty"
  "atone (start p nvm d) = zeroDistrib" "icfSlash (start p nvm d) = 0" "atom (start p nvm d) = d"
  by (simp_all add: start_def ZeroDec_def)

lemma zeroDistrib_fields:
  "supply zeroDistrib = 0" "votes zeroDistrib opt = 0" "unstaked zeroDistrib = 0"
  by (simp_all add: zeroDistrib_def newVoteMap_def ZeroDec_def)

lemma succeeded_Returned: "succeeded out \<Longrightarrow> \<exists>a. out = Returned a None"
  by (cases out rule: succeeded.cases) simp_all

section \<open>The non-voter multiplier\<close>

text \<open>
  Claim C1.  Whenever the aggregated non-voter pool of the first loop (the Abstain votes
  plus the NoVote votes plus the unstaked amount, each a sum over all accounts) is not
  zero, \<open>distribution\<close> returns, and the \<open>nonVotersMultiplier\<close> of the airdrop it
  returns is the decimal quotient of \<open>target * (yesWeighted + noWeighted)\<close> by
  \<open>(1 - target) * nonVoterPool\<close>, with \<open>target = 0.33\<close>, \<open>yesWeighted\<close> the Yes
  votes times the yes multiplier and \<open>noWeighted\<close> the No and NoWithVeto votes times
  the no multiplier, every operation being the one of the decimal type.
\<close>

theorem nonVotersMultiplier_formula:
  fixes accounts :: "Account list" and p :: distriParams
  defines "vote \<equiv> \<lambda>opt. (\<Sum>acc\<leftarrow>accounts. Mul (voteWeights acc opt) (StakedAmount acc))"
  defines "unst \<equiv> (\<Sum>acc\<leftarrow>accounts. LiquidAmount acc)"
  defines "yesWeighted \<equiv> Mul (vote OptionYes) (yesVotesMultiplier p)"
  defines "noWeighted \<equiv> Mul (Add (vote OptionNo) (vote OptionNoWithVeto)) (noVotesMultiplier p)"
  defines "nonVoterPool \<equiv> Add (Add (vote OptionAbstain) (vote OptionEmpty)) unst"
  defines "target \<equiv> NewDecWithPrec 33 2"
  assumes "accounts \<noteq> []" and "nonVoterPool \<noteq> 0"
  shows "\<exists>a e. distribution lib accounts p prefix = Returned a e \<and>
           Quo (Mul target (Add yesWeighted noWeighted))
               (Mul (Sub OneDec target) nonVoterPool) = Inr (nonVotersMultiplier a)"
proof -
  let ?d = "pass1 zeroDistrib accounts"
  have y: "yesAtoneTotalAmt ?d p = yesWeighted"
    by (simp add: yesAtoneTotalAmt_def yesWeighted_def vote_def pass1_zeroDistrib)
  have n: "noAtoneTotalAmt ?d p = noWeighted"
    by (simp add: noAtoneTotalAmt_def noWeighted_def vote_def pass1_zeroDistrib)
  have v: "noVotersAtomTotalAmt ?d = nonVoterPool"
    by (simp add: noVotersAtomTotalAmt_def nonVoterPool_def vote_def unst_def pass1_zeroDistrib)
  obtain nvm where s: "solveNonVotersMultiplier yesWeighted noWeighted nonVoterPool = Inr nvm"
    using solve_defined[OF assms(8)] by blast
  then have "solveNonVotersMultiplier (yesAtoneTotalAmt ?d p) (noAtoneTotalAmt ?d p)
               (noVotersAtomTotalAmt ?d) = Inr nvm"
    by (simp add: y n v)
  from distribution_cases[OF this, of lib prefix] s show ?thesis
    by (auto simp: solveNonVotersMultiplier_def targetNonVotersPerc_def target_def)
qed

theorem nonVotersMultiplier_formula_witness:
  "[yesVoter, nonVoter] \<noteq> [] \<and>
   (\<exists>a e. distribution exampleSdk [yesVoter, nonVoter] defaultDistriParams [] = Returned a e \<and>
          Quo (Mul (NewDecWithPrec 33 2) (Add (NewDec 100) ZeroDec))
              (Mul (Sub OneDec (NewDecWithPrec 33 2)) (NewDec 100)) = Inr (nonVotersMultiplier a) \<and>
          nonVotersMultiplier a = 492537313432835821)"
  using nonVotersMultiplier_formula[where accounts = "[yesVoter, nonVoter]" and p = defaultDistriParams
          and lib = exampleSdk and prefix = "[]"]
  by (simp add: yesVoter_def nonVoter_def defaultDistriParams_def newVoteMap_def ZeroDec_def
      OneDec_def NewDec_def NewDecWithPrec_def Add_def Sub_def Mul_def Quo_def bigQuo_def
      chopPrecisionAndRound_def precisionReuse_def fivePrecision_def Let_def)

text \<open>
  Claim C2, as the code has it.  \<open>distribution\<close> has no check of the non-voter pool: when
  the pool is zero it still performs the division, whose divisor is then zero, and the
  call ends in the run-time panic of that division.  No error value and no airdrop is
  returned, and the second loop is never reached.
\<close>

theorem zero_pool_panics:
  assumes "Add (Add (\<Sum>acc\<leftarrow>accounts. Mul (voteWeights acc OptionAbstain) (StakedAmount acc))
                    (\<Sum>acc\<leftarrow>accounts. Mul (voteWeights acc OptionEmpty) (StakedAmount acc)))
               (\<Sum>acc\<leftarrow>accounts. LiquidAmount acc) = 0"
  shows "distribution lib accounts p prefix = Panicked DivisionByZero"
  using assms
  by (simp add: distribution_def Let_def solve_zero_pool noVotersAtomTotalAmt_def pass1_zeroDistrib)

theorem zero_pool_panics_witness:
  "distribution exampleSdk [] defaultDistriParams ''atone'' = Panicked DivisionByZero"
  using zero_pool_panics[of "[]" exampleSdk defaultDistriParams "''atone''"]
  by (simp add: Add_def)

text \<open>
  The claim as stated fails: for a single account that staked 100 and voted Yes the pool
  is zero, and the call is not answered by a failure result but panics in the division.
\<close>

theorem zero_pool_counterexample:
  "noVotersAtomTotalAmt (pass1 zeroDistrib [yesVoter]) = 0 \<and>
   distribution exampleSdk [yesVoter] defaultDistriParams [] = Panicked DivisionByZero"
  by (simp add: distribution_def Let_def solveNonVotersMultiplier_def Quo_def
      noVotersAtomTotalAmt_def pass1_body_def zeroDistrib_def yesVoter_def newVoteMap_def
      voteMap_add_def ZeroDec_def Add_def Mul_def chopPrecisionAndRound_def)

section \<open>The per-account audit record\<close>

text \<open>
  Claim C5.  In every airdrop that \<open>distribution\<close> returns, the \<open>Total\<close> of each
  recorded \<open>airdropDetail\<close> is the sum of its six result amounts (Yes, No, NoWithVeto,
  Abstain, NoVote, Liquid), as the same decimal value; and \<open>distribution\<close> never ends
  in the panic of the self-check.
\<close>

theorem detail_sum_equals_total:
  "distribution lib accounts p prefix \<noteq> Panicked (WRONG w) \<and>
   (distribution lib accounts p prefix = Returned a e \<longrightarrow> addressesDetail a k = Some d \<longrightarrow>
      Total d = Add (Add (Add (Add (Add (AtoneAmt (YesDetail d)) (AtoneAmt (NoDetail d)))
                  (AtoneAmt (NWVDetail d))) (AtoneAmt (AbsDetail d)))
                  (AtoneAmt (DnvDetail d))) (AtoneAmt (LiquidDetail d)))"
proof (intro conjI impI)
  show "distribution lib accounts p prefix \<noteq> Panicked (WRONG w)"
  proof (cases "solveNonVotersMultiplier (yesAtoneTotalAmt (pass1 zeroDistrib accounts) p)
           (noAtoneTotalAmt (pass1 zeroDistrib accounts) p)
           (noVotersAtomTotalAmt (pass1 zeroDistrib accounts))")
    case (Inl pn)
    then have "pn = DivisionByZero"
      by (auto simp: solveNonVotersMultiplier_def Quo_def split: if_splits)
    with Inl show ?thesis by (simp add: distribution_def Let_def)
  next
    case (Inr nvm)
    from distribution_cases[OF this, of lib prefix] show ?thesis by auto
  qed
next
  assume r: "distribution lib accounts p prefix = Returned a e"
    and k: "addressesDetail a k = Some d"
  from r obtain nvm a0 where
    run: "pass2 lib prefix (start p nvm (pass1 zeroDistrib accounts)) accounts = Next a0
          \<or> pass2 lib prefix (start p nvm (pass1 zeroDistrib accounts)) accounts = Stop (Returned a0 e)"
    and d: "addressesDetail a0 = addressesDetail a"
    by (cases rule: distribution_Returned) auto
  from k d have "addressesDetail a0 k = Some d" by simp
  from pass2_entries(2)[OF run start_fields(1) start_fields(2) this]
  obtain acc where "d = accountDetail p nvm acc"
    by (auto simp: start_fields)
  then show "Total d = Add (Add (Add (Add (Add (AtoneAmt (YesDetail d)) (AtoneAmt (NoDetail d)))
                  (AtoneAmt (NWVDetail d))) (AtoneAmt (AbsDetail d)))
                  (AtoneAmt (DnvDetail d))) (AtoneAmt (LiquidDetail d))"
    by (simp add: accountDetail_Total Add_def)
qed

theorem detail_sum_equals_total_witness:
  "\<exists>a d. distribution exampleSdk [yesVoter, nonVoter] defaultDistriParams [] = Returned a None \<and>
         addressesDetail a ''cosmos1b'' = Some d \<and>
         AtoneAmt (DnvDetail d) = 4777611940298507464 \<and>
         Total d = 4777611940298507464 \<and>
         Total d = Add (Add (Add (Add (Add (AtoneAmt (YesDetail d)) (AtoneAmt (NoDetail d)))
                  (AtoneAmt (NWVDetail d))) (AtoneAmt (AbsDetail d)))
                  (AtoneAmt (DnvDetail d))) (AtoneAmt (LiquidDetail d))"
proof -
  let ?out = "distribution exampleSdk [yesVoter, nonVoter] defaultDistriParams []"
  have "succeeded ?out" by code_simp
  then obtain a where a: "?out = Returned a None"
    using succeeded_Returned by blast
  have "map_option (\<lambda>d. (AtoneAmt (DnvDetail d), Total d)) (returned_detail ?out ''cosmos1b'')
          = Some (4777611940298507464, 4777611940298507464)"
    by code_simp
  with a obtain d where d: "addressesDetail a ''cosmos1b'' = Some d"
    "AtoneAmt (DnvDetail d) = 4777611940298507464" "Total d = 4777611940298507464"
    by auto
  from detail_sum_equals_total[of exampleSdk "[yesVoter, nonVoter]" defaultDistriParams "[]" _ a None "''cosmos1b''" d]
    a d show ?thesis by blast
qed

section \<open>The award of an account\<close>

lemma accountDetail_amounts:
  "AtoneAmt (YesDetail (accountDetail p nvm acc)) =
     Mul (Mul (Mul (voteWeights acc OptionYes) (StakedAmount acc)) (yesVotesMultiplier p)) (supplyFactor p)"
  "AtoneAmt (NoDetail (accountDetail p nvm acc)) =
     Mul (Mul (Mul (voteWeights acc OptionNo) (StakedAmount acc)) (noVotesMultiplier p)) (supplyFactor p)"
  "AtoneAmt (NWVDetail (accountDetail p nvm acc)) =
     Mul (Mul (Mul (Mul (voteWeights acc OptionNoWithVeto) (StakedAmount acc)) (noVotesMultiplier p))
              (bonus p)) (supplyFactor p)"
  "AtoneAmt (AbsDetail (accountDetail p nvm acc)) =
     Mul (Mul (Mul (voteWeights acc OptionAbstain) (StakedAmount acc)) nvm) (supplyFactor p)"
  "AtoneAmt (DnvDetail (accountDetail p nvm acc)) =
     Mul (Mul (Mul (Mul (voteWeights acc OptionEmpty) (StakedAmount acc)) nvm) (malus p)) (supplyFactor p)"
  "AtoneAmt (LiquidDetail (accountDetail p nvm acc)) =
     Mul (Mul (LiquidAmount acc) (Mul nvm (malus p))) (supplyFactor p)"
  by (simp_all add: accountDetail_def Let_def)

lemma accountDetail_Total_Add:
  "Total (accountDetail p nvm acc) =
     Add (AtoneAmt (LiquidDetail (accountDetail p nvm acc)))
       (Add (Add (Add (Add (AtoneAmt (YesDetail (accountDetail p nvm acc)))
                           (AtoneAmt (NoDetail (accountDetail p nvm acc))))
                      (AtoneAmt (NWVDetail (accountDetail p nvm acc))))
                 (AtoneAmt (AbsDetail (accountDetail p nvm acc))))
            (AtoneAmt (DnvDetail (accountDetail p nvm acc))))"
  by (simp add: accountDetail_def Let_def)

lemma accountDetail_bonusMalus:
  "BonusMalus (YesDetail (accountDetail p nvm acc)) = OneDec"
  "BonusMalus (NoDetail (accountDetail p nvm acc)) = OneDec"
  "BonusMalus (NWVDetail (accountDetail p nvm acc)) = bonus p"
  "BonusMalus (AbsDetail (accountDetail p nvm acc)) = OneDec"
  "BonusMalus (DnvDetail (accountDetail p nvm acc)) = malus p"
  "BonusMalus (LiquidDetail (accountDetail p nvm acc)) = malus p"
  by (simp_all add: accountDetail_def Let_def)

lemma distribution_complete:
  assumes "distribution lib accounts p prefix = Returned a None"
  obtains a0 where "pass2 lib prefix (start p (nonVotersMultiplier a) (pass1 zeroDistrib accounts)) accounts = Next a0"
    and "atone a = atone a0" and "addresses a = addresses a0"
    and "addressesDetail a = addressesDetail a0" and "icfSlash a = icfSlash a0"
    and "atom a = pass1 zeroDistrib accounts" and "params a = p"
proof -
  from assms obtain nvm a0 cp where
    run: "pass2 lib prefix (start p nvm (pass1 zeroDistrib accounts)) accounts = Next a0"
    and a: "a = a0\<lparr>communityPool := Some cp, reservedAddr := Some cp\<rparr>"
    by (cases rule: distribution_Returned) auto
  from pass2_invariant_fields[OF disjI1, OF run]
  have f: "nonVotersMultiplier a0 = nvm" "atom a0 = pass1 zeroDistrib accounts" "params a0 = p"
    by (simp_all add: start_fields)
  with a have "nonVotersMultiplier a = nvm" by simp
  with run a f show ?thesis by (auto intro: that)
qed

text \<open>
  Claim C3.  Let \<open>distribution\<close> return an airdrop without error.  For an account that is
  not slashed, the source amount of an option is its vote weight times the staked amount,
  and the award amounts are: Yes, the source amount times the yes multiplier times the
  supply factor; No, times the no multiplier times the supply factor; NoWithVeto, times the
  no multiplier, the bonus and the supply factor; Abstain, times the non-voters multiplier
  and the supply factor, with no malus; NoVote, times the non-voters multiplier, the malus
  and the supply factor; liquid, the liquid amount times the product of the non-voters
  multiplier and the malus, times the supply factor; the total is the liquid award plus the
  sum of the five others.  These amounts are what the result distrib accumulates over the
  accounts that are not slashed, and what is recorded for the account: the rounded total
  under its output key, and the amounts in its audit record (when the rounded total is not
  zero and no later account is recorded under the same key).
\<close>

theorem award_formula:
  fixes p :: distriParams and a :: airdrop
  defines "m \<equiv> nonVotersMultiplier a"
  defines "sourceAmt \<equiv> \<lambda>x opt. Mul (voteWeights x opt) (StakedAmount x)"
  defines "awardYes \<equiv> \<lambda>x. Mul (Mul (sourceAmt x OptionYes) (yesVotesMultiplier p)) (supplyFactor p)"
  defines "awardNo \<equiv> \<lambda>x. Mul (Mul (sourceAmt x OptionNo) (noVotesMultiplier p)) (supplyFactor p)"
  defines "awardNWV \<equiv> \<lambda>x. Mul (Mul (Mul (sourceAmt x OptionNoWithVeto) (noVotesMultiplier p)) (bonus p))
                              (supplyFactor p)"
  defines "awardAbs \<equiv> \<lambda>x. Mul (Mul (sourceAmt x OptionAbstain) m) (supplyFactor p)"
  defines "awardDnv \<equiv> \<lambda>x. Mul (Mul (Mul (sourceAmt x OptionEmpty) m) (malus p)) (supplyFactor p)"
  defines "liquidAward \<equiv> \<lambda>x. Mul (Mul (LiquidAmount x) (Mul m (malus p))) (supplyFactor p)"
  defines "totalAward \<equiv> \<lambda>x. Add (liquidAward x)
             (Add (Add (Add (Add (awardYes x) (awardNo x)) (awardNWV x)) (awardAbs x)) (awardDnv x))"
  assumes ret: "distribution lib (pre @ acc # post) p prefix = Returned a None"
    and ns: "\<not> slashed acc"
  shows "supply (atone a) = (\<Sum>x\<leftarrow>filter (\<lambda>x. \<not> slashed x) (pre @ acc # post). totalAward x) \<and>
         votes (atone a) OptionYes = (\<Sum>x\<leftarrow>filter (\<lambda>x. \<not> slashed x) (pre @ acc # post). awardYes x) \<and>
         votes (atone a) OptionNo = (\<Sum>x\<leftarrow>filter (\<lambda>x. \<not> slashed x) (pre @ acc # post). awardNo x) \<and>
         votes (atone a) OptionNoWithVeto = (\<Sum>x\<leftarrow>filter (\<lambda>x. \<not> slashed x) (pre @ acc # post). awardNWV x) \<and>
         votes (atone a) OptionAbstain = (\<Sum>x\<leftarrow>filter (\<lambda>x. \<not> slashed x) (pre @ acc # post). awardAbs x) \<and>
         votes (atone a) OptionEmpty = (\<Sum>x\<leftarrow>filter (\<lambda>x. \<not> slashed x) (pre @ acc # post). awardDnv x) \<and>
         unstaked (atone a) = (\<Sum>x\<leftarrow>filter (\<lambda>x. \<not> slashed x) (pre @ acc # post). liquidAward x) \<and>
         (RoundInt (totalAward acc) \<noteq> 0 \<longrightarrow> outputAddr lib prefix acc = Inr k \<longrightarrow>
          (\<forall>x\<in>set post. outputAddr lib prefix x \<noteq> Inr k) \<longrightarrow>
            addresses a k = Some (RoundInt (totalAward acc)) \<and>
            (\<exists>d. addressesDetail a k = Some d \<and>
                 AtoneAmt (YesDetail d) = awardYes acc \<and> AtoneAmt (NoDetail d) = awardNo acc \<and>
                 AtoneAmt (NWVDetail d) = awardNWV acc \<and> AtoneAmt (AbsDetail d) = awardAbs acc \<and>
                 AtoneAmt (DnvDetail d) = awardDnv acc \<and> AtoneAmt (LiquidDetail d) = liquidAward acc \<and>
                 BonusMalus (AbsDetail d) = OneDec \<and> BonusMalus (DnvDetail d) = malus p \<and>
                 BonusMalus (LiquidDetail d) = malus p \<and> Total d = totalAward acc))"
proof -
  let ?accs = "pre @ acc # post"
  let ?det = "accountDetail p m"
  from ret obtain a0 where
    run: "pass2 lib prefix (start p m (pass1 zeroDistrib ?accs)) ?accs = Next a0"
    and eq: "atone a = atone a0" "addresses a = addresses a0" "addressesDetail a = addressesDetail a0"
    unfolding m_def by (rule distribution_complete)
  have tot: "\<And>x. Total (?det x) = totalAward x"
    unfolding totalAward_def liquidAward_def awardYes_def awardNo_def awardNWV_def awardAbs_def
      awardDnv_def sourceAmt_def
    by (simp add: accountDetail_Total_Add accountDetail_amounts)
  have amts: "\<And>x. AtoneAmt (YesDetail (?det x)) = awardYes x"
    "\<And>x. AtoneAmt (NoDetail (?det x)) = awardNo x"
    "\<And>x. AtoneAmt (NWVDetail (?det x)) = awardNWV x"
    "\<And>x. AtoneAmt (AbsDetail (?det x)) = awardAbs x"
    "\<And>x. AtoneAmt (DnvDetail (?det x)) = awardDnv x"
    "\<And>x. AtoneAmt (LiquidDetail (?det x)) = liquidAward x"
    unfolding liquidAward_def awardYes_def awardNo_def awardNWV_def awardAbs_def
      awardDnv_def sourceAmt_def
    by (simp_all add: accountDetail_amounts)
  note sums = pass2_sums[OF run start_fields(1) start_fields(2)]
  have s1: "supply (atone a) = (\<Sum>x\<leftarrow>filter (\<lambda>x. \<not> slashed x) ?accs. totalAward x)"
    using sums(1) by (simp add: eq start_fields zeroDistrib_fields tot)
  have v: "\<And>opt. votes (atone a) opt =
             (\<Sum>x\<leftarrow>filter (\<lambda>x. \<not> slashed x) ?accs. AtoneAmt (bucket opt (?det x)))"
    using sums(2) by (simp add: eq start_fields zeroDistrib_fields)
  have s3: "unstaked (atone a) = (\<Sum>x\<leftarrow>filter (\<lambda>x. \<not> slashed x) ?accs. liquidAward x)"
    using sums(3) by (simp add: eq start_fields zeroDistrib_fields amts)
  have entry: "addresses a k = Some (RoundInt (totalAward acc)) \<and>
            (\<exists>d. addressesDetail a k = Some d \<and>
                 AtoneAmt (YesDetail d) = awardYes acc \<and> AtoneAmt (NoDetail d) = awardNo acc \<and>
                 AtoneAmt (NWVDetail d) = awardNWV acc \<and> AtoneAmt (AbsDetail d) = awardAbs acc \<and>
                 AtoneAmt (DnvDetail d) = awardDnv acc \<and> AtoneAmt (LiquidDetail d) = liquidAward acc \<and>
                 BonusMalus (AbsDetail d) = OneDec \<and> BonusMalus (DnvDetail d) = malus p \<and>
                 BonusMalus (LiquidDetail d) = malus p \<and> Total d = totalAward acc)"
    if nz: "RoundInt (totalAward acc) \<noteq> 0" and key: "outputAddr lib prefix acc = Inr k"
      and later: "\<forall>x\<in>set post. outputAddr lib prefix x \<noteq> Inr k"
  proof -
    from nz have nz': "RoundInt (Total (?det acc)) \<noteq> 0" by (simp add: tot)
    from pass2_last_write[OF run start_fields(1) start_fields(2) ns nz' key later]
    have "addresses a k = Some (RoundInt (Total (?det acc)))" "addressesDetail a k = Some (?det acc)"
      by (simp_all add: eq)
    then show ?thesis
      by (simp add: tot amts accountDetail_bonusMalus)
  qed
  from s1 v[of OptionYes] v[of OptionNo] v[of OptionNoWithVeto] v[of OptionAbstain] v[of OptionEmpty]
    s3 entry show ?thesis
    by (simp add: amts)
qed

theorem award_formula_witness:
  "\<exists>a. distribution exampleSdk ([yesVoter] @ nonVoter # [dustHolder]) defaultDistriParams [] = Returned a None \<and>
       \<not> slashed nonVoter \<and> outputAddr exampleSdk [] nonVoter = Inr ''cosmos1b'' \<and>
       nonVotersMultiplier a = 492045268164671150 \<and>
       supply (atone a) = 14777611940298507465 \<and>
       addresses a ''cosmos1b'' = Some 5 \<and>
       (\<exists>d. addressesDetail a ''cosmos1b'' = Some d \<and> Total d = 4772839101197310155)"
proof -
  let ?out = "distribution exampleSdk ([yesVoter] @ nonVoter # [dustHolder]) defaultDistriParams []"
  have "succeeded ?out" by code_simp
  then obtain a where a: "?out = Returned a None"
    using succeeded_Returned by blast
  have "map_option nonVotersMultiplier (returned_airdrop ?out) = Some 492045268164671150"
    by code_simp
  with a have m: "nonVotersMultiplier a = 492045268164671150" by simp
  have ns: "\<not> slashed nonVoter" by code_simp
  have key: "outputAddr exampleSdk [] nonVoter = Inr ''cosmos1b''" by code_simp
  have later: "\<forall>x\<in>set [dustHolder]. outputAddr exampleSdk [] x \<noteq> Inr ''cosmos1b''" by code_simp
  have tot: "Add (Mul (Mul (LiquidAmount nonVoter) (Mul 492045268164671150 (malus defaultDistriParams)))
                   (supplyFactor defaultDistriParams))
         (Add (Add (Add (Add
           (Mul (Mul (Mul (voteWeights nonVoter OptionYes) (StakedAmount nonVoter))
                  (yesVotesMultiplier defaultDistriParams)) (supplyFactor defaultDistriParams))
           (Mul (Mul (Mul (voteWeights nonVoter OptionNo) (StakedAmount nonVoter))
                  (noVotesMultiplier defaultDistriParams)) (supplyFactor defaultDistriParams)))
           (Mul (Mul (Mul (Mul (voteWeights nonVoter OptionNoWithVeto) (StakedAmount nonVoter))
                  (noVotesMultiplier defaultDistriParams)) (bonus defaultDistriParams))
                  (supplyFactor defaultDistriParams)))
           (Mul (Mul (Mul (voteWeights nonVoter OptionAbstain) (StakedAmount nonVoter))
                  492045268164671150) (supplyFactor defaultDistriParams)))
           (Mul (Mul (Mul (Mul (voteWeights nonVoter OptionEmpty) (StakedAmount nonVoter))
                  492045268164671150) (malus defaultDistriParams)) (supplyFactor defaultDistriParams)))
       = 4772839101197310155"
    by code_simp
  have r5: "RoundInt 4772839101197310155 = 5" by code_simp
  have s: "(\<Sum>x\<leftarrow>filter (\<lambda>x. \<not> slashed x) ([yesVoter] @ nonVoter # [dustHolder]).
              Add (Mul (Mul (LiquidAmount x) (Mul 492045268164671150 (malus defaultDistriParams)))
                   (supplyFactor defaultDistriParams))
         (Add (Add (Add (Add
           (Mul (Mul (Mul (voteWeights x OptionYes) (StakedAmount x))
                  (yesVotesMultiplier defaultDistriParams)) (supplyFactor defaultDistriParams))
           (Mul (Mul (Mul (voteWeights x OptionNo) (StakedAmount x))
                  (noVotesMultiplier defaultDistriParams)) (supplyFactor defaultDistriParams)))
           (Mul (Mul (Mul (Mul (voteWeights x OptionNoWithVeto) (StakedAmount x))
                  (noVotesMultiplier defaultDistriParams)) (bonus defaultDistriParams))
                  (supplyFactor defaultDistriParams)))
           (Mul (Mul (Mul (voteWeights x OptionAbstain) (StakedAmount x))
                  492045268164671150) (supplyFactor defaultDistriParams)))
           (Mul (Mul (Mul (Mul (voteWeights x OptionEmpty) (StakedAmount x))
                  492045268164671150) (malus defaultDistriParams)) (supplyFactor defaultDistriParams))))
       = 14777611940298507465"
    by code_simp
  note th = award_formula[OF a ns, of "''cosmos1b''", unfolded m tot s r5]
  from th have sup: "supply (atone a) = 14777611940298507465" by (rule conjunct1)
  have five: "(5::int) \<noteq> 0" by simp
  from th key later five
  have "addresses a ''cosmos1b'' = Some 5 \<and>
        (\<exists>d. addressesDetail a ''cosmos1b'' = Some d \<and> Total d = 4772839101197310155)"
    by blast
  with a ns key m sup show ?thesis by blast
qed

section \<open>Slashed accounts and accounts whose award rounds to zero\<close>

lemma distribution_entries:
  assumes "distribution lib accounts p prefix = Returned a e"
  shows "addresses a k = Some n \<Longrightarrow>
           \<exists>acc\<in>set accounts. \<not> slashed acc \<and> outputAddr lib prefix acc = Inr k \<and>
              n = RoundInt (Total (accountDetail p (nonVotersMultiplier a) acc)) \<and> n \<noteq> 0"
    and "addressesDetail a k = Some d \<Longrightarrow>
           \<exists>acc\<in>set accounts. \<not> slashed acc \<and> outputAddr lib prefix acc = Inr k \<and>
              d = accountDetail p (nonVotersMultiplier a) acc \<and> RoundInt (Total d) \<noteq> 0"
proof -
  from assms obtain nvm a0 where
    run: "pass2 lib prefix (start p nvm (pass1 zeroDistrib accounts)) accounts = Next a0
          \<or> pass2 lib prefix (start p nvm (pass1 zeroDistrib accounts)) accounts = Stop (Returned a0 e)"
    and eq: "addresses a0 = addresses a" "addressesDetail a0 = addressesDetail a"
      "nonVotersMultiplier a0 = nonVotersMultiplier a"
    by (cases rule: distribution_Returned) auto
  from pass2_invariant_fields[OF run] eq have nvm: "nvm = nonVotersMultiplier a"
    by (simp add: start_fields)
  show "addresses a k = Some n \<Longrightarrow>
           \<exists>acc\<in>set accounts. \<not> slashed acc \<and> outputAddr lib prefix acc = Inr k \<and>
              n = RoundInt (Total (accountDetail p (nonVotersMultiplier a) acc)) \<and> n \<noteq> 0"
    using pass2_entries(1)[OF run start_fields(1) start_fields(2), of k n]
    by (simp add: eq start_fields nvm)
  show "addressesDetail a k = Some d \<Longrightarrow>
           \<exists>acc\<in>set accounts. \<not> slashed acc \<and> outputAddr lib prefix acc = Inr k \<and>
              d = accountDetail p (nonVotersMultiplier a) acc \<and> RoundInt (Total d) \<noteq> 0"
    using pass2_entries(2)[OF run start_fields(1) start_fields(2), of k d]
    by (simp add: eq start_fields nvm)
qed

lemma distribution_atom:
  assumes "distribution lib accounts p prefix = Returned a e"
  shows "atom a = pass1 zeroDistrib accounts \<and> params a = p \<and>
         solveNonVotersMultiplier (yesAtoneTotalAmt (atom a) p) (noAtoneTotalAmt (atom a) p)
           (noVotersAtomTotalAmt (atom a)) = Inr (nonVotersMultiplier a)"
proof -
  from assms obtain nvm where
    s: "solveNonVotersMultiplier (yesAtoneTotalAmt (pass1 zeroDistrib accounts) p)
         (noAtoneTotalAmt (pass1 zeroDistrib accounts) p)
         (noVotersAtomTotalAmt (pass1 zeroDistrib accounts)) = Inr nvm"
    by (cases rule: distribution_Returned) auto
  from distribution_cases[OF s, of lib prefix] assms s show ?thesis by auto
qed

text \<open>
  Claim C6.  Let \<open>distribution\<close> return an airdrop for a list that holds an account whose
  address is one of the ICF wallets.  No entry of the address mapping or of the detail
  mapping was written for a slashed account: every key is the output key of an account
  that is not slashed, so without re-encoding no ICF wallet address is a key.  When the
  call returns without error, \<open>icfSlash\<close> holds the liquid plus the staked amount of the
  account in full (added to those of the other slashed accounts), and the supply, the
  votes and the unstaked part of the result distrib are the sums over the accounts that
  are not slashed: the slashed account adds nothing to them.
\<close>

theorem slashed_account_gets_nothing:
  assumes ret: "distribution lib (pre @ acc # post) p prefix = Returned a e"
    and sl: "Address acc \<in> set icfWallets"
  shows "(\<forall>k. k \<in> dom (addresses a) \<union> dom (addressesDetail a) \<longrightarrow>
            (\<exists>x\<in>set (pre @ post). Address x \<notin> set icfWallets \<and> outputAddr lib prefix x = Inr k)) \<and>
         (prefix = [] \<longrightarrow> addresses a (Address acc) = None \<and> addressesDetail a (Address acc) = None) \<and>
         (e = None \<longrightarrow>
            icfSlash a = (\<Sum>x\<leftarrow>filter slashed (pre @ post). LiquidAmount x + StakedAmount x)
                           + Add (LiquidAmount acc) (StakedAmount acc) \<and>
            supply (atone a) = (\<Sum>x\<leftarrow>filter (\<lambda>x. \<not> slashed x) (pre @ post).
                                  Total (accountDetail p (nonVotersMultiplier a) x)) \<and>
            (\<forall>opt. votes (atone a) opt = (\<Sum>x\<leftarrow>filter (\<lambda>x. \<not> slashed x) (pre @ post).
                                  AtoneAmt (bucket opt (accountDetail p (nonVotersMultiplier a) x)))) \<and>
            unstaked (atone a) = (\<Sum>x\<leftarrow>filter (\<lambda>x. \<not> slashed x) (pre @ post).
                                  AtoneAmt (LiquidDetail (accountDetail p (nonVotersMultiplier a) x))))"
proof (intro conjI allI impI)
  from sl have s: "slashed acc" by (simp add: slashed_def)
  fix k assume "k \<in> dom (addresses a) \<union> dom (addressesDetail a)"
  then have "\<exists>x\<in>set (pre @ acc # post). \<not> slashed x \<and> outputAddr lib prefix x = Inr k"
    using distribution_entries[OF ret] by (auto simp: dom_def) blast+
  with s show "\<exists>x\<in>set (pre @ post). Address x \<notin> set icfWallets \<and> outputAddr lib prefix x = Inr k"
    by (auto simp: slashed_def)
next
  assume np: "prefix = []"
  show "addresses a (Address acc) = None"
  proof (cases "addresses a (Address acc)")
    case (Some n)
    from distribution_entries(1)[OF ret Some] np sl show ?thesis
      by (auto simp: outputAddr_def slashed_def)
  qed simp
  show "addressesDetail a (Address acc) = None"
  proof (cases "addressesDetail a (Address acc)")
    case (Some d)
    from distribution_entries(2)[OF ret Some] np sl show ?thesis
      by (auto simp: outputAddr_def slashed_def)
  qed simp
next
  assume "e = None"
  with ret have ret': "distribution lib (pre @ acc # post) p prefix = Returned a None" by simp
  from sl have s: "slashed acc" by (simp add: slashed_def)
  from ret' obtain a0 where
    run: "pass2 lib prefix (start p (nonVotersMultiplier a) (pass1 zeroDistrib (pre @ acc # post)))
            (pre @ acc # post) = Next a0"
    and eq: "atone a = atone a0" "icfSlash a = icfSlash a0"
    by (rule distribution_complete)
  note sums = pass2_sums[OF run start_fields(1) start_fields(2)]
  show "icfSlash a = (\<Sum>x\<leftarrow>filter slashed (pre @ post). LiquidAmount x + StakedAmount x)
                           + Add (LiquidAmount acc) (StakedAmount acc)"
    using sums(4) s by (simp add: eq start_fields Add_def)
  show "supply (atone a) = (\<Sum>x\<leftarrow>filter (\<lambda>x. \<not> slashed x) (pre @ post).
                                  Total (accountDetail p (nonVotersMultiplier a) x))"
    using sums(1) s by (simp add: eq start_fields zeroDistrib_fields)
  show "unstaked (atone a) = (\<Sum>x\<leftarrow>filter (\<lambda>x. \<not> slashed x) (pre @ post).
                                  AtoneAmt (LiquidDetail (accountDetail p (nonVotersMultiplier a) x)))"
    using sums(3) s by (simp add: eq start_fields zeroDistrib_fields)
  fix opt
  show "votes (atone a) opt = (\<Sum>x\<leftarrow>filter (\<lambda>x. \<not> slashed x) (pre @ post).
                                  AtoneAmt (bucket opt (accountDetail p (nonVotersMultiplier a) x)))"
    using sums(2)[of opt] s by (simp add: eq start_fields zeroDistrib_fields)
qed


theorem slashed_account_gets_nothing_witness:
  "\<exists>a. distribution exampleSdk ([yesVoter] @ icfAccount # [nonVoter]) defaultDistriParams [] = Returned a None \<and>
       Address icfAccount \<in> set icfWallets \<and>
       StakedAmount icfAccount = NewDec 50 \<and> LiquidAmount icfAccount = NewDec 50 \<and>
       icfSlash a = NewDec 100 \<and>
       addresses a (Address icfAccount) = None \<and> addressesDetail a (Address icfAccount) = None"
proof -
  let ?out = "distribution exampleSdk ([yesVoter] @ icfAccount # [nonVoter]) defaultDistriParams []"
  have "succeeded ?out" by code_simp
  then obtain a where a: "?out = Returned a None"
    using succeeded_Returned by blast
  have sl: "Address icfAccount \<in> set icfWallets" by code_simp
  have am: "StakedAmount icfAccount = NewDec 50" "LiquidAmount icfAccount = NewDec 50"
    by (simp_all add: icfAccount_def)
  have s: "(\<Sum>x\<leftarrow>filter slashed ([yesVoter] @ [nonVoter]). LiquidAmount x + StakedAmount x)
             + Add (LiquidAmount icfAccount) (StakedAmount icfAccount) = NewDec 100"
    by code_simp
  note th = slashed_account_gets_nothing[OF a sl, unfolded s]
  from th have "icfSlash a = NewDec 100" by blast
  moreover from th have "addresses a (Address icfAccount) = None \<and>
      addressesDetail a (Address icfAccount) = None" by blast
  ultimately show ?thesis using a sl am by blast
qed

text \<open>
  Claim C7.  Let \<open>distribution\<close> return an airdrop without error for a list that holds an
  account that is not slashed and whose total award rounds to the integer zero.  Every
  amount recorded in the address mapping is the non-zero rounding of the total of an
  account that is not slashed, and every audit record belongs to such an account; so the
  account has no entry: its output key is absent from both mappings unless another
  account is recorded under the same key.  Its unrounded total, bucket amounts and liquid
  award are nevertheless part of the supply, the votes and the unstaked part of the result
  distrib, which are sums of unrounded decimal amounts.
\<close>

theorem zero_award_omitted:
  fixes p :: distriParams and a :: airdrop
  defines "det \<equiv> accountDetail p (nonVotersMultiplier a)"
  assumes ret: "distribution lib (pre @ acc # post) p prefix = Returned a None"
    and ns: "Address acc \<notin> set icfWallets"
    and z: "RoundInt (Total (det acc)) = 0"
  shows "(\<forall>k n. addresses a k = Some n \<longrightarrow>
            n \<noteq> 0 \<and> (\<exists>x\<in>set (pre @ post). \<not> slashed x \<and> outputAddr lib prefix x = Inr k \<and>
                          n = RoundInt (Total (det x)))) \<and>
         (\<forall>k d. addressesDetail a k = Some d \<longrightarrow>
            (\<exists>x\<in>set (pre @ post). \<not> slashed x \<and> outputAddr lib prefix x = Inr k \<and>
                          d = det x \<and> RoundInt (Total d) \<noteq> 0)) \<and>
         (\<forall>k. outputAddr lib prefix acc = Inr k \<longrightarrow>
              (\<forall>x\<in>set (pre @ post). outputAddr lib prefix x \<noteq> Inr k) \<longrightarrow>
              addresses a k = None \<and> addressesDetail a k = None) \<and>
         supply (atone a) =
           (\<Sum>x\<leftarrow>filter (\<lambda>x. \<not> slashed x) (pre @ post). Total (det x)) + Total (det acc) \<and>
         (\<forall>opt. votes (atone a) opt =
           (\<Sum>x\<leftarrow>filter (\<lambda>x. \<not> slashed x) (pre @ post). AtoneAmt (bucket opt (det x)))
             + AtoneAmt (bucket opt (det acc))) \<and>
         unstaked (atone a) =
           (\<Sum>x\<leftarrow>filter (\<lambda>x. \<not> slashed x) (pre @ post). AtoneAmt (LiquidDetail (det x)))
             + AtoneAmt (LiquidDetail (det acc))"
proof -
  from ns have nsl: "\<not> slashed acc" by (simp add: slashed_def)
  have e1: "n \<noteq> 0 \<and> (\<exists>x\<in>set (pre @ post). \<not> slashed x \<and> outputAddr lib prefix x = Inr k \<and>
                          n = RoundInt (Total (det x)))" if "addresses a k = Some n" for k n
  proof -
    from distribution_entries(1)[OF ret that] obtain x where
      x: "x \<in> set (pre @ acc # post)" "\<not> slashed x" "outputAddr lib prefix x = Inr k"
         "n = RoundInt (Total (det x))" "n \<noteq> 0"
      unfolding det_def by blast
    from x(4,5) z have "x \<noteq> acc" by auto
    with x show ?thesis by auto
  qed
  have e2: "\<exists>x\<in>set (pre @ post). \<not> slashed x \<and> outputAddr lib prefix x = Inr k \<and>
                          d = det x \<and> RoundInt (Total d) \<noteq> 0" if "addressesDetail a k = Some d" for k d
  proof -
    from distribution_entries(2)[OF ret that] obtain x where
      x: "x \<in> set (pre @ acc # post)" "\<not> slashed x" "outputAddr lib prefix x = Inr k"
         "d = det x" "RoundInt (Total d) \<noteq> 0"
      unfolding det_def by blast
    from x(4,5) z have "x \<noteq> acc" by auto
    with x show ?thesis by auto
  qed
  have e3: "addresses a k = None \<and> addressesDetail a k = None"
    if "\<forall>x\<in>set (pre @ post). outputAddr lib prefix x \<noteq> Inr k" for k
  proof -
    have "addresses a k = None"
    proof (cases "addresses a k")
      case (Some n)
      from e1[OF Some] that show ?thesis by blast
    qed simp
    moreover have "addressesDetail a k = None"
    proof (cases "addressesDetail a k")
      case (Some d)
      from e2[OF Some] that show ?thesis by blast
    qed simp
    ultimately show ?thesis by simp
  qed
  from ret obtain a0 where
    run: "pass2 lib prefix (start p (nonVotersMultiplier a) (pass1 zeroDistrib (pre @ acc # post)))
            (pre @ acc # post) = Next a0"
    and eq: "atone a = atone a0"
    by (rule distribution_complete)
  note sums = pass2_sums[OF run start_fields(1) start_fields(2)]
  have s1: "supply (atone a) =
           (\<Sum>x\<leftarrow>filter (\<lambda>x. \<not> slashed x) (pre @ post). Total (det x)) + Total (det acc)"
    using sums(1) nsl by (simp add: eq start_fields zeroDistrib_fields det_def)
  have s2: "votes (atone a) opt =
           (\<Sum>x\<leftarrow>filter (\<lambda>x. \<not> slashed x) (pre @ post). AtoneAmt (bucket opt (det x)))
             + AtoneAmt (bucket opt (det acc))" for opt
    using sums(2)[of opt] nsl by (simp add: eq start_fields zeroDistrib_fields det_def)
  have s3: "unstaked (atone a) =
           (\<Sum>x\<leftarrow>filter (\<lambda>x. \<not> slashed x) (pre @ post). AtoneAmt (LiquidDetail (det x)))
             + AtoneAmt (LiquidDetail (det acc))"
    using sums(3) nsl by (simp add: eq start_fields zeroDistrib_fields det_def)
  have c1: "\<forall>k n. addresses a k = Some n \<longrightarrow>
            n \<noteq> 0 \<and> (\<exists>x\<in>set (pre @ post). \<not> slashed x \<and> outputAddr lib prefix x = Inr k \<and>
                          n = RoundInt (Total (det x)))"
    using e1 by blast
  have c2: "\<forall>k d. addressesDetail a k = Some d \<longrightarrow>
            (\<exists>x\<in>set (pre @ post). \<not> slashed x \<and> outputAddr lib prefix x = Inr k \<and>
                          d = det x \<and> RoundInt (Total d) \<noteq> 0)"
    using e2 by blast
  have c3: "\<forall>k. outputAddr lib prefix acc = Inr k \<longrightarrow>
              (\<forall>x\<in>set (pre @ post). outputAddr lib prefix x \<noteq> Inr k) \<longrightarrow>
              addresses a k = None \<and> addressesDetail a k = None"
    using e3 by blast
  have c5: "\<forall>opt. votes (atone a) opt =
           (\<Sum>x\<leftarrow>filter (\<lambda>x. \<not> slashed x) (pre @ post). AtoneAmt (bucket opt (det x)))
             + AtoneAmt (bucket opt (det acc))"
    using s2 by blast
  show ?thesis
    by (intro conjI) (rule c1 c2 c3 s1 c5 s3)+
qed

theorem zero_award_omitted_witness:
  "\<exists>a. distribution exampleSdk ([yesVoter] @ dustHolder # [nonVoter]) defaultDistriParams [] = Returned a None \<and>
       Address dustHolder \<notin> set icfWallets \<and>
       Total (accountDetail defaultDistriParams (nonVotersMultiplier a) dustHolder) = 4772839101197310 \<and>
       RoundInt 4772839101197310 = 0 \<and>
       outputAddr exampleSdk [] dustHolder = Inr ''cosmos1c'' \<and>
       addresses a ''cosmos1c'' = None \<and> addressesDetail a ''cosmos1c'' = None \<and>
       supply (atone a) = 14772839101197310155 + 4772839101197310 \<and>
       unstaked (atone a) = 0 + 4772839101197310"
proof -
  let ?out = "distribution exampleSdk ([yesVoter] @ dustHolder # [nonVoter]) defaultDistriParams []"
  have "succeeded ?out" by code_simp
  then obtain a where a: "?out = Returned a None"
    using succeeded_Returned by blast
  have "map_option nonVotersMultiplier (returned_airdrop ?out) = Some 492045268164671150"
    by code_simp
  with a have m: "nonVotersMultiplier a = 492045268164671150" by simp
  have ns: "Address dustHolder \<notin> set icfWallets" by code_simp
  have t: "Total (accountDetail defaultDistriParams 492045268164671150 dustHolder) = 4772839101197310"
    by code_simp
  have l: "AtoneAmt (LiquidDetail (accountDetail defaultDistriParams 492045268164671150 dustHolder))
             = 4772839101197310"
    by code_simp
  have r: "RoundInt 4772839101197310 = 0" by code_simp
  have key: "outputAddr exampleSdk [] dustHolder = Inr ''cosmos1c''" by code_simp
  have others: "\<forall>x\<in>set ([yesVoter] @ [nonVoter]). outputAddr exampleSdk [] x \<noteq> Inr ''cosmos1c''"
    by code_simp
  have s1: "(\<Sum>x\<leftarrow>filter (\<lambda>x. \<not> slashed x) ([yesVoter] @ [nonVoter]).
               Total (accountDetail defaultDistriParams 492045268164671150 x)) = 14772839101197310155"
    by code_simp
  have s3: "(\<Sum>x\<leftarrow>filter (\<lambda>x. \<not> slashed x) ([yesVoter] @ [nonVoter]).
               AtoneAmt (LiquidDetail (accountDetail defaultDistriParams 492045268164671150 x))) = 0"
    by code_simp
  have z: "RoundInt (Total (accountDetail defaultDistriParams (nonVotersMultiplier a) dustHolder)) = 0"
    unfolding m t by (rule r)
  note th = zero_award_omitted[OF a ns z, unfolded m t l s1 s3]
  from th[THEN conjunct2, THEN conjunct2, THEN conjunct1] key others
  have th3: "addresses a ''cosmos1c'' = None \<and> addressesDetail a ''cosmos1c'' = None"
    by blast
  have tm: "Total (accountDetail defaultDistriParams (nonVotersMultiplier a) dustHolder) = 4772839101197310"
    unfolding m by (rule t)
  have n1: "addresses a ''cosmos1c'' = None" using th3 by (rule conjunct1)
  have n2: "addressesDetail a ''cosmos1c'' = None" using th3 by (rule conjunct2)
  have u1: "supply (atone a) = 14772839101197310155 + 4772839101197310"
    using th[THEN conjunct2, THEN conjunct2, THEN conjunct2] by (rule conjunct1)
  have u2: "unstaked (atone a) = 0 + 4772839101197310"
    using th[THEN conjunct2, THEN conjunct2, THEN conjunct2, THEN conjunct2] by (rule conjunct2)
  show ?thesis
    by (rule exI[of _ a]) (intro conjI a ns tm r key n1 n2 u1 u2)
qed

section \<open>Slashed accounts in the first loop\<close>

text \<open>
  Claim C10.  Let \<open>distribution\<close> return an airdrop for a list that holds an account
  whose address is one of the ICF wallets.  The source distrib contains the amounts of
  that account: its staked plus liquid amount in the supply, its weighted staked amounts
  in the votes, its liquid amount in the unstaked part.  The non-voters multiplier is
  solved from these aggregates, the slashed account included.  The same account is left
  out of the second loop: when the call returns without error, the result supply is the
  sum of the totals of the accounts that are not slashed.
\<close>

theorem slashed_counted_in_first_pass:
  assumes ret: "distribution lib (pre @ acc # post) p prefix = Returned a e"
    and sl: "Address acc \<in> set icfWallets"
  shows "supply (atom a) = (\<Sum>x\<leftarrow>pre @ post. StakedAmount x + LiquidAmount x)
                              + (StakedAmount acc + LiquidAmount acc) \<and>
         (\<forall>opt. votes (atom a) opt = (\<Sum>x\<leftarrow>pre @ post. Mul (voteWeights x opt) (StakedAmount x))
                              + Mul (voteWeights acc opt) (StakedAmount acc)) \<and>
         unstaked (atom a) = (\<Sum>x\<leftarrow>pre @ post. LiquidAmount x) + LiquidAmount acc \<and>
         Quo (Mul (NewDecWithPrec 33 2)
                (Add (Mul (votes (atom a) OptionYes) (yesVotesMultiplier p))
                     (Mul (Add (votes (atom a) OptionNo) (votes (atom a) OptionNoWithVeto))
                          (noVotesMultiplier p))))
             (Mul (Sub OneDec (NewDecWithPrec 33 2))
                (Add (Add (votes (atom a) OptionAbstain) (votes (atom a) OptionEmpty))
                     (unstaked (atom a))))
           = Inr (nonVotersMultiplier a) \<and>
         (e = None \<longrightarrow>
            supply (atone a) = (\<Sum>x\<leftarrow>filter (\<lambda>x. \<not> slashed x) (pre @ post).
                                  Total (accountDetail p (nonVotersMultiplier a) x)))"
proof -
  note da = distribution_atom[OF ret]
  note at = da[THEN conjunct1]
  note sv = da[THEN conjunct2, THEN conjunct2]
  have c1: "supply (atom a) = (\<Sum>x\<leftarrow>pre @ post. StakedAmount x + LiquidAmount x)
                              + (StakedAmount acc + LiquidAmount acc)"
    by (simp add: at pass1_zeroDistrib)
  have c2: "votes (atom a) opt = (\<Sum>x\<leftarrow>pre @ post. Mul (voteWeights x opt) (StakedAmount x))
                              + Mul (voteWeights acc opt) (StakedAmount acc)" for opt
    by (simp add: at pass1_zeroDistrib)
  have c3: "unstaked (atom a) = (\<Sum>x\<leftarrow>pre @ post. LiquidAmount x) + LiquidAmount acc"
    by (simp add: at pass1_zeroDistrib)
  from sv have c4: "Quo (Mul (NewDecWithPrec 33 2)
                (Add (Mul (votes (atom a) OptionYes) (yesVotesMultiplier p))
                     (Mul (Add (votes (atom a) OptionNo) (votes (atom a) OptionNoWithVeto))
                          (noVotesMultiplier p))))
             (Mul (Sub OneDec (NewDecWithPrec 33 2))
                (Add (Add (votes (atom a) OptionAbstain) (votes (atom a) OptionEmpty))
                     (unstaked (atom a))))
           = Inr (nonVotersMultiplier a)"
    by (simp add: solveNonVotersMultiplier_def yesAtoneTotalAmt_def noAtoneTotalAmt_def
        noVotersAtomTotalAmt_def targetNonVotersPerc_def)
  have c5: "supply (atone a) = (\<Sum>x\<leftarrow>filter (\<lambda>x. \<not> slashed x) (pre @ post).
                                  Total (accountDetail p (nonVotersMultiplier a) x))" if "e = None"
  proof -
    from ret that have ret': "distribution lib (pre @ acc # post) p prefix = Returned a None" by simp
    from sl have s: "slashed acc" by (simp add: slashed_def)
    from ret' obtain a0 where
      run: "pass2 lib prefix (start p (nonVotersMultiplier a) (pass1 zeroDistrib (pre @ acc # post)))
              (pre @ acc # post) = Next a0"
      and eq: "atone a = atone a0"
      by (rule distribution_complete)
    from pass2_sums(1)[OF run start_fields(1) start_fields(2)] s show ?thesis
      by (simp add: eq start_fields zeroDistrib_fields)
  qed
  have c2': "\<forall>opt. votes (atom a) opt = (\<Sum>x\<leftarrow>pre @ post. Mul (voteWeights x opt) (StakedAmount x))
                              + Mul (voteWeights acc opt) (StakedAmount acc)"
    using c2 by blast
  have c5': "e = None \<longrightarrow>
            supply (atone a) = (\<Sum>x\<leftarrow>filter (\<lambda>x. \<not> slashed x) (pre @ post).
                                  Total (accountDetail p (nonVotersMultiplier a) x))"
    using c5 by blast
  show ?thesis
    by (intro conjI) (rule c1 c2' c3 c4 c5')+
qed

theorem slashed_counted_in_first_pass_witness:
  "\<exists>a. distribution exampleSdk ([yesVoter] @ icfAccount # [nonVoter]) defaultDistriParams [] = Returned a None \<and>
       Address icfAccount \<in> set icfWallets \<and>
       supply (atom a) = NewDec 200 + NewDec 100 \<and>
       unstaked (atom a) = NewDec 0 + NewDec 50 \<and>
       votes (atom a) OptionEmpty = NewDec 100 + NewDec 50 \<and>
       nonVotersMultiplier a = 246268656716417910"
proof -
  let ?out = "distribution exampleSdk ([yesVoter] @ icfAccount # [nonVoter]) defaultDistriParams []"
  have "succeeded ?out" by code_simp
  then obtain a where a: "?out = Returned a None"
    using succeeded_Returned by blast
  have sl: "Address icfAccount \<in> set icfWallets" by code_simp
  have "map_option nonVotersMultiplier (returned_airdrop ?out) = Some 246268656716417910"
    by code_simp
  with a have m: "nonVotersMultiplier a = 246268656716417910" by simp
  have s1: "(\<Sum>x\<leftarrow>[yesVoter] @ [nonVoter]. StakedAmount x + LiquidAmount x)
              + (StakedAmount icfAccount + LiquidAmount icfAccount) = NewDec 200 + NewDec 100"
    by code_simp
  have s2: "(\<Sum>x\<leftarrow>[yesVoter] @ [nonVoter]. LiquidAmount x) + LiquidAmount icfAccount
              = NewDec 0 + NewDec 50"
    by code_simp
  have s3: "(\<Sum>x\<leftarrow>[yesVoter] @ [nonVoter]. Mul (voteWeights x OptionEmpty) (StakedAmount x))
              + Mul (voteWeights icfAccount OptionEmpty) (StakedAmount icfAccount)
              = NewDec 100 + NewDec 50"
    by code_simp
  note th = slashed_counted_in_first_pass[OF a sl]
  have u1: "supply (atom a) = NewDec 200 + NewDec 100"
    using th[THEN conjunct1] unfolding s1 .
  have u2: "unstaked (atom a) = NewDec 0 + NewDec 50"
    using th[THEN conjunct2, THEN conjunct2, THEN conjunct1] unfolding s2 .
  have u3: "votes (atom a) OptionEmpty = NewDec 100 + NewDec 50"
    using th[THEN conjunct2, THEN conjunct1, rule_format, of OptionEmpty] unfolding s3 .
  show ?thesis
    by (rule exI[of _ a]) (intro conjI a sl u1 u2 u3 m)
qed

section \<open>Failure of the address conversion\<close>

lemma pass2_pools:
  assumes "pass2 lib prefix a accs = Next a' \<or> pass2 lib prefix a accs = Stop (Returned a' e)"
  shows "communityPool a' = communityPool a \<and> reservedAddr a' = reservedAddr a"
  using assms
proof (induction accs arbitrary: a)
  case Nil
  then show ?case by simp
next
  case (Cons acc accs)
  from Cons.prems show ?case
  proof (cases rule: pass2_Cons_cases)
    case stop
    then show ?thesis using pass2_body_fields by blast
  next
    case (continue a1)
    from Cons.IH[OF continue(2)] pass2_body_fields[OF disjI1, OF continue(1)]
    show ?thesis by simp
  qed
qed

lemma pass2_no_failure:
  assumes "params a = p" and "nonVotersMultiplier a = nvm"
    and "\<forall>x\<in>set xs. slashed x \<or> RoundInt (Total (accountDetail p nvm x)) = 0
            \<or> (\<exists>k. outputAddr lib prefix x = Inr k)"
  shows "\<exists>a'. pass2 lib prefix a xs = Next a'"
  using assms
proof (induction xs arbitrary: a)
  case Nil
  then show ?case by simp
next
  case (Cons x xs)
  from Cons.prems have "\<exists>a1. pass2_body lib prefix a x = Next a1"
    by (auto simp: pass2_body_eq Let_def split: if_splits sum.splits)
  then obtain a1 where b: "pass2_body lib prefix a x = Next a1" by blast
  from pass2_body_fields[OF disjI1, OF b] Cons.prems
  have f: "params a1 = p" "nonVotersMultiplier a1 = nvm" by simp_all
  from Cons.prems(3) have "\<forall>x\<in>set xs. slashed x \<or> RoundInt (Total (accountDetail p nvm x)) = 0
            \<or> (\<exists>k. outputAddr lib prefix x = Inr k)" by simp
  from Cons.IH[OF f this] b show ?case by simp
qed

lemma pass2_body_fails:
  assumes "params a = p" and "nonVotersMultiplier a = nvm"
    and "\<not> slashed acc" and "RoundInt (Total (accountDetail p nvm acc)) \<noteq> 0"
    and "outputAddr lib prefix acc = Inl err"
  shows "pass2_body lib prefix a acc =
           Stop (Returned (a\<lparr>atone := credit (atone a) (accountDetail p nvm acc)\<rparr>) (Some err))"
  using assms by (simp add: pass2_body_eq Let_def)

text \<open>
  Claim C4, as the code has it.  Let re-encoding be configured, let the multiplier be
  solved, and let the conversion fail for an account that is to be recorded (it is not
  slashed and its rounded award is not zero) while no account before it fails.  Then the
  call returns the conversion error of that account, and it returns it together with the
  airdrop built so far, not with an empty one.  That airdrop carries the parameters, the
  complete source distrib and the solved multiplier; its \<open>icfSlash\<close> is the sum over the
  slashed accounts before the failing one; its result distrib is the sum of the awards of
  the accounts before the failing one that are not slashed, plus the award of the failing
  account itself; its entries are those of the accounts before the failing one (each
  account that is recorded and not overwritten later has its rounded total and its audit
  record under its key, and there is no other entry); its community pool and reserved
  amount are still unset.
\<close>

theorem conversion_failure_propagates:
  fixes p :: distriParams and nvm :: dec and pre post :: "Account list" and acc :: Account
  defines "atom1 \<equiv> pass1 zeroDistrib (pre @ acc # post)"
  defines "det \<equiv> accountDetail p nvm"
  assumes solved: "solveNonVotersMultiplier (yesAtoneTotalAmt atom1 p) (noAtoneTotalAmt atom1 p)
                     (noVotersAtomTotalAmt atom1) = Inr nvm"
    and pre: "prefix \<noteq> []"
    and before: "\<forall>x\<in>set pre. slashed x \<or> RoundInt (Total (det x)) = 0
                    \<or> (\<exists>k. convertBech32 lib (Address x) ''cosmos'' prefix = Inr k)"
    and ns: "Address acc \<notin> set icfWallets"
    and nz: "RoundInt (Total (det acc)) \<noteq> 0"
    and fail: "convertBech32 lib (Address acc) ''cosmos'' prefix = Inl err"
  shows "\<exists>a. distribution lib (pre @ acc # post) p prefix = Returned a (Some err) \<and>
           params a = p \<and> atom a = atom1 \<and> nonVotersMultiplier a = nvm \<and>
           communityPool a = None \<and> reservedAddr a = None \<and>
           icfSlash a = (\<Sum>x\<leftarrow>filter slashed pre. LiquidAmount x + StakedAmount x) \<and>
           supply (atone a) =
             (\<Sum>x\<leftarrow>filter (\<lambda>x. \<not> slashed x) pre. Total (det x)) + Total (det acc) \<and>
           (\<forall>opt. votes (atone a) opt =
             (\<Sum>x\<leftarrow>filter (\<lambda>x. \<not> slashed x) pre. AtoneAmt (bucket opt (det x)))
               + AtoneAmt (bucket opt (det acc))) \<and>
           unstaked (atone a) =
             (\<Sum>x\<leftarrow>filter (\<lambda>x. \<not> slashed x) pre. AtoneAmt (LiquidDetail (det x)))
               + AtoneAmt (LiquidDetail (det acc)) \<and>
           (\<forall>k n. addresses a k = Some n \<longrightarrow>
              (\<exists>x\<in>set pre. \<not> slashed x \<and> outputAddr lib prefix x = Inr k \<and>
                   n = RoundInt (Total (det x)) \<and> n \<noteq> 0)) \<and>
           (\<forall>k d. addressesDetail a k = Some d \<longrightarrow>
              (\<exists>x\<in>set pre. \<not> slashed x \<and> outputAddr lib prefix x = Inr k \<and>
                   d = det x \<and> RoundInt (Total d) \<noteq> 0)) \<and>
           (\<forall>pre1 x pre2 k. pre = pre1 @ x # pre2 \<longrightarrow> \<not> slashed x \<longrightarrow>
              RoundInt (Total (det x)) \<noteq> 0 \<longrightarrow> outputAddr lib prefix x = Inr k \<longrightarrow>
              (\<forall>x'\<in>set pre2. outputAddr lib prefix x' \<noteq> Inr k) \<longrightarrow>
              addresses a k = Some (RoundInt (Total (det x))) \<and> addressesDetail a k = Some (det x))"
proof -
  let ?s = "start p nvm atom1"
  have sp: "params ?s = p" and sn: "nonVotersMultiplier ?s = nvm"
    by (simp_all add: start_fields)
  from ns have nsl: "\<not> slashed acc" by (simp add: slashed_def)
  from fail pre have f: "outputAddr lib prefix acc = Inl err" by (simp add: outputAddr_def)
  from before pre have before': "\<forall>x\<in>set pre. slashed x \<or> RoundInt (Total (accountDetail p nvm x)) = 0
            \<or> (\<exists>k. outputAddr lib prefix x = Inr k)"
    by (simp add: outputAddr_def det_def)
  from pass2_no_failure[OF sp sn before'] obtain a0 where
    run0: "pass2 lib prefix ?s pre = Next a0" by blast
  from pass2_invariant_fields[OF disjI1, OF run0]
  have f0: "params a0 = p" "nonVotersMultiplier a0 = nvm" "atom a0 = atom1"
    by (simp_all add: start_fields)
  from pass2_pools[OF disjI1, OF run0]
  have p0: "communityPool a0 = None" "reservedAddr a0 = None"
    by (simp_all add: start_def)
  define a where "a = a0\<lparr>atone := credit (atone a0) (det acc)\<rparr>"
  from nz have nz': "RoundInt (Total (accountDetail p nvm acc)) \<noteq> 0" by (simp add: det_def)
  from pass2_body_fails[OF f0(1) f0(2) nsl nz' f]
  have b: "pass2_body lib prefix a0 acc = Stop (Returned a (Some err))"
    by (simp add: a_def det_def)
  from run0 b have run: "pass2 lib prefix ?s (pre @ acc # post) = Stop (Returned a (Some err))"
    by (simp add: pass2_append)
  from solved run have ret: "distribution lib (pre @ acc # post) p prefix = Returned a (Some err)"
    by (simp add: distribution_def Let_def atom1_def start_def)
  note sums = pass2_sums[OF run0 sp sn]
  have c1: "params a = p" "atom a = atom1" "nonVotersMultiplier a = nvm"
    "communityPool a = None" "reservedAddr a = None"
    by (simp_all add: a_def f0 p0)
  have c2: "icfSlash a = (\<Sum>x\<leftarrow>filter slashed pre. LiquidAmount x + StakedAmount x)"
    using sums(4) by (simp add: a_def start_fields)
  have c3: "supply (atone a) =
             (\<Sum>x\<leftarrow>filter (\<lambda>x. \<not> slashed x) pre. Total (det x)) + Total (det acc)"
    using sums(1) by (simp add: a_def credit_def start_fields zeroDistrib_fields det_def)
  have c4: "\<forall>opt. votes (atone a) opt =
             (\<Sum>x\<leftarrow>filter (\<lambda>x. \<not> slashed x) pre. AtoneAmt (bucket opt (det x)))
               + AtoneAmt (bucket opt (det acc))"
    using sums(2) by (simp add: a_def credit_def start_fields zeroDistrib_fields det_def)
  have c5: "unstaked (atone a) =
             (\<Sum>x\<leftarrow>filter (\<lambda>x. \<not> slashed x) pre. AtoneAmt (LiquidDetail (det x)))
               + AtoneAmt (LiquidDetail (det acc))"
    using sums(3) by (simp add: a_def credit_def start_fields zeroDistrib_fields det_def)
  have am: "addresses a = addresses a0" "addressesDetail a = addressesDetail a0"
    by (simp_all add: a_def)
  have c6: "\<forall>k n. addresses a k = Some n \<longrightarrow>
              (\<exists>x\<in>set pre. \<not> slashed x \<and> outputAddr lib prefix x = Inr k \<and>
                   n = RoundInt (Total (det x)) \<and> n \<noteq> 0)"
    using pass2_entries(1)[OF disjI1, OF run0 sp sn]
    by (simp add: am start_fields det_def)
  have c7: "\<forall>k d. addressesDetail a k = Some d \<longrightarrow>
              (\<exists>x\<in>set pre. \<not> slashed x \<and> outputAddr lib prefix x = Inr k \<and>
                   d = det x \<and> RoundInt (Total d) \<noteq> 0)"
    using pass2_entries(2)[OF disjI1, OF run0 sp sn]
    by (simp add: am start_fields det_def)
  have c8: "\<forall>pre1 x pre2 k. pre = pre1 @ x # pre2 \<longrightarrow> \<not> slashed x \<longrightarrow>
              RoundInt (Total (det x)) \<noteq> 0 \<longrightarrow> outputAddr lib prefix x = Inr k \<longrightarrow>
              (\<forall>x'\<in>set pre2. outputAddr lib prefix x' \<noteq> Inr k) \<longrightarrow>
              addresses a k = Some (RoundInt (Total (det x))) \<and> addressesDetail a k = Some (det x)"
  proof (intro allI impI)
    fix pre1 x pre2 k
    assume d: "pre = pre1 @ x # pre2" and h: "\<not> slashed x" "RoundInt (Total (det x)) \<noteq> 0"
      "outputAddr lib prefix x = Inr k" "\<forall>x'\<in>set pre2. outputAddr lib prefix x' \<noteq> Inr k"
    from run0 d have r: "pass2 lib prefix ?s (pre1 @ x # pre2) = Next a0" by simp
    from h(2) have h2: "RoundInt (Total (accountDetail p nvm x)) \<noteq> 0" by (simp add: det_def)
    from pass2_last_write[OF r sp sn h(1) h2 h(3) h(4)]
    show "addresses a k = Some (RoundInt (Total (det x))) \<and> addressesDetail a k = Some (det x)"
      by (simp add: am det_def)
  qed
  show ?thesis
    by (rule exI[of _ a]) (intro conjI ret c1 c2 c3 c4 c5 c6 c7 c8)
qed

theorem conversion_failure_propagates_witness:
  "\<exists>a. distribution exampleSdk ([yesStaker, idleStaker] @ foreignVoter # []) defaultDistriParams ''atone''
          = Returned a (Some (GetFromBech32Error ''osmo19y4zktpd9chnqvfjxv6r2d3h8qun5weupmkavj''
                                ''invalid Bech32 prefix; expected cosmos, got osmo'')) \<and>
       nonVotersMultiplier a = 1439724454649827784 \<and>
       communityPool a = None \<and> reservedAddr a = None \<and>
       supply (atone a) = 23965327210103329505 + 32189598163030998850 \<and>
       addresses a ''atone1qypqxpq9qcrsszg2pvxq6rs0zqg3yyc53zsesy'' = Some 10"
proof -
  let ?er = "GetFromBech32Error ''osmo19y4zktpd9chnqvfjxv6r2d3h8qun5weupmkavj''
               ''invalid Bech32 prefix; expected cosmos, got osmo''"
  let ?k = "''atone1qypqxpq9qcrsszg2pvxq6rs0zqg3yyc53zsesy''"
  let ?det = "accountDetail defaultDistriParams 1439724454649827784"
  have solved: "solveNonVotersMultiplier
        (yesAtoneTotalAmt (pass1 zeroDistrib ([yesStaker, idleStaker] @ foreignVoter # []))
           defaultDistriParams)
        (noAtoneTotalAmt (pass1 zeroDistrib ([yesStaker, idleStaker] @ foreignVoter # []))
           defaultDistriParams)
        (noVotersAtomTotalAmt (pass1 zeroDistrib ([yesStaker, idleStaker] @ foreignVoter # [])))
      = Inr 1439724454649827784"
    by code_simp
  have pre: "''atone'' \<noteq> []" by simp
  have k1: "convertBech32 exampleSdk (Address yesStaker) ''cosmos'' ''atone'' = Inr ?k"
    by code_simp
  have k2: "convertBech32 exampleSdk (Address idleStaker) ''cosmos'' ''atone''
              = Inr ''atone1z5tpwxqergd3c8g7ruszzg3rysjjvfegx8yhcj''"
    by code_simp
  have before: "\<forall>x\<in>set [yesStaker, idleStaker].
      slashed x \<or> RoundInt (Total (?det x)) = 0
        \<or> (\<exists>k. convertBech32 exampleSdk (Address x) ''cosmos'' ''atone'' = Inr k)"
  proof
    fix x assume "x \<in> set [yesStaker, idleStaker]"
    then have "x = yesStaker \<or> x = idleStaker" by simp
    with k1 k2 have "\<exists>k. convertBech32 exampleSdk (Address x) ''cosmos'' ''atone'' = Inr k"
      by blast
    then show "slashed x \<or> RoundInt (Total (?det x)) = 0
        \<or> (\<exists>k. convertBech32 exampleSdk (Address x) ''cosmos'' ''atone'' = Inr k)"
      by blast
  qed
  have ns: "Address foreignVoter \<notin> set icfWallets" by code_simp
  have "RoundInt (Total (?det foreignVoter)) = 32" by code_simp
  then have nz: "RoundInt (Total (?det foreignVoter)) \<noteq> 0" by simp
  have fail: "convertBech32 exampleSdk (Address foreignVoter) ''cosmos'' ''atone'' = Inl ?er"
    by code_simp
  have s: "(\<Sum>x\<leftarrow>filter (\<lambda>x. \<not> slashed x) [yesStaker, idleStaker]. Total (?det x))
             + Total (?det foreignVoter) = 23965327210103329505 + 32189598163030998850"
    by code_simp
  have w1: "\<not> slashed yesStaker" by code_simp
  have w2: "RoundInt (Total (?det yesStaker)) = 10" by code_simp
  then have w2': "RoundInt (Total (?det yesStaker)) \<noteq> 0" by simp
  have w3: "outputAddr exampleSdk ''atone'' yesStaker = Inr ?k" by code_simp
  have w4: "\<forall>x'\<in>set [idleStaker]. outputAddr exampleSdk ''atone'' x' \<noteq> Inr ?k" by code_simp
  have dec: "[yesStaker, idleStaker] = [] @ yesStaker # [idleStaker]" by simp
  note th = conversion_failure_propagates[where pre = "[yesStaker, idleStaker]" and acc = foreignVoter
      and post = "[]" and p = defaultDistriParams and nvm = 1439724454649827784
      and lib = exampleSdk and prefix = "''atone''" and err = ?er,
      OF solved pre before ns nz fail, unfolded s]
  from th obtain a where
    r: "distribution exampleSdk ([yesStaker, idleStaker] @ foreignVoter # []) defaultDistriParams ''atone''
          = Returned a (Some ?er)"
    and m: "nonVotersMultiplier a = 1439724454649827784"
    and cp: "communityPool a = None" and ra: "reservedAddr a = None"
    and su: "supply (atone a) = 23965327210103329505 + 32189598163030998850"
    and w: "\<forall>pre1 x pre2 k. [yesStaker, idleStaker] = pre1 @ x # pre2 \<longrightarrow> \<not> slashed x \<longrightarrow>
              RoundInt (Total (?det x)) \<noteq> 0 \<longrightarrow> outputAddr exampleSdk ''atone'' x = Inr k \<longrightarrow>
              (\<forall>x'\<in>set pre2. outputAddr exampleSdk ''atone'' x' \<noteq> Inr k) \<longrightarrow>
              addresses a k = Some (RoundInt (Total (?det x))) \<and> addressesDetail a k = Some (?det x)"
    by blast
  from w dec w1 w2' w3 w4 have "addresses a ?k = Some (RoundInt (Total (?det yesStaker)))"
    by blast
  then have e1: "addresses a ?k = Some 10" unfolding w2 .
  show ?thesis
    by (rule exI[of _ a]) (intro conjI r m cp ra su e1)
qed

text \<open>
  The claim as stated fails: when the conversion fails for the third account (its address
  has another prefix), the call returns the error together with an airdrop that holds the
  entries of the first two accounts and a result supply that includes all three awards.
\<close>

theorem conversion_failure_counterexample:
  "returned_error (distribution exampleSdk [yesStaker, idleStaker, foreignVoter] defaultDistriParams ''atone'')
     = Some (GetFromBech32Error ''osmo19y4zktpd9chnqvfjxv6r2d3h8qun5weupmkavj''
               ''invalid Bech32 prefix; expected cosmos, got osmo'') \<and>
   returned_addresses (distribution exampleSdk [yesStaker, idleStaker, foreignVoter] defaultDistriParams ''atone'')
     ''atone1qypqxpq9qcrsszg2pvxq6rs0zqg3yyc53zsesy'' = Some 10 \<and>
   returned_addresses (distribution exampleSdk [yesStaker, idleStaker, foreignVoter] defaultDistriParams ''atone'')
     ''atone1z5tpwxqergd3c8g7ruszzg3rysjjvfegx8yhcj'' = Some 14 \<and>
   map_option supply
     (returned_atone (distribution exampleSdk [yesStaker, idleStaker, foreignVoter] defaultDistriParams ''atone''))
     = Some 56154925373134328355"
  by code_simp

section \<open>Conservation\<close>

text \<open>What the five rounded products of an account add up to, less its staked amount.\<close>

lemma parts_pass1_body:
  "parts (pass1_body d acc) - supply (pass1_body d acc) =
     (parts d - supply d)
     + (Mul (voteWeights acc OptionYes) (StakedAmount acc)
        + Mul (voteWeights acc OptionNo) (StakedAmount acc)
        + Mul (voteWeights acc OptionNoWithVeto) (StakedAmount acc)
        + Mul (voteWeights acc OptionAbstain) (StakedAmount acc)
        + Mul (voteWeights acc OptionEmpty) (StakedAmount acc)
        - StakedAmount acc)"
  by (simp add: parts_def votes_pass1_body supply_pass1_body unstaked_pass1_body)

lemma parts_pass1:
  "parts (pass1 d accs) - supply (pass1 d accs) =
     (parts d - supply d)
     + (\<Sum>acc\<leftarrow>accs. Mul (voteWeights acc OptionYes) (StakedAmount acc)
        + Mul (voteWeights acc OptionNo) (StakedAmount acc)
        + Mul (voteWeights acc OptionNoWithVeto) (StakedAmount acc)
        + Mul (voteWeights acc OptionAbstain) (StakedAmount acc)
        + Mul (voteWeights acc OptionEmpty) (StakedAmount acc)
        - StakedAmount acc)"
proof (induction accs arbitrary: d)
  case Nil
  then show ?case by simp
next
  case (Cons acc accs)
  show ?case
    unfolding pass1.simps Cons.IH parts_pass1_body by simp
qed

lemma parts_zeroDistrib: "parts zeroDistrib - supply zeroDistrib = 0"
  by (simp add: parts_def zeroDistrib_fields)

lemma Mul_whole: "Mul w (NewDec n) = w * n"
proof -
  have "w * (n * precisionReuse) = (w * n) * precisionReuse" by simp
  then show ?thesis unfolding Mul_def NewDec_def by (simp only: chop_exact)
qed

lemma products_whole:
  assumes "w1 + w2 + w3 + w4 + w5 = OneDec"
  shows "Mul w1 (NewDec n) + Mul w2 (NewDec n) + Mul w3 (NewDec n) + Mul w4 (NewDec n)
           + Mul w5 (NewDec n) - NewDec n = 0"
proof -
  have "Mul w1 (NewDec n) + Mul w2 (NewDec n) + Mul w3 (NewDec n) + Mul w4 (NewDec n)
           + Mul w5 (NewDec n) = (w1 + w2 + w3 + w4 + w5) * n"
    by (simp add: Mul_whole algebra_simps)
  with assms show ?thesis by (simp add: NewDec_def OneDec_def)
qed

lemma scaled_bound:
  fixes x :: int
  assumes "\<bar>x * precisionReuse\<bar> \<le> 5 * fivePrecision"
  shows "\<bar>x\<bar> \<le> 2"
proof (rule ccontr)
  assume "\<not> \<bar>x\<bar> \<le> 2"
  then have "3 \<le> \<bar>x\<bar>" by simp
  then have "3 * precisionReuse \<le> \<bar>x\<bar> * precisionReuse"
    by (intro mult_right_mono) (simp_all add: precisionReuse_def)
  also have "\<bar>x\<bar> * precisionReuse = \<bar>x * precisionReuse\<bar>"
    by (simp add: abs_mult precisionReuse_def)
  finally have "3 * precisionReuse \<le> 5 * fivePrecision" using assms by simp
  then show False by (simp add: precisionReuse_def fivePrecision_def)
qed

lemma products_bound:
  assumes "w1 + w2 + w3 + w4 + w5 = OneDec"
  shows "\<bar>Mul w1 s + Mul w2 s + Mul w3 s + Mul w4 s + Mul w5 s - s\<bar> \<le> 2"
proof -
  define x where "x = Mul w1 s + Mul w2 s + Mul w3 s + Mul w4 s + Mul w5 s - s"
  have e: "\<bar>Mul w1 s * precisionReuse - w1 * s\<bar> \<le> fivePrecision"
    "\<bar>Mul w2 s * precisionReuse - w2 * s\<bar> \<le> fivePrecision"
    "\<bar>Mul w3 s * precisionReuse - w3 * s\<bar> \<le> fivePrecision"
    "\<bar>Mul w4 s * precisionReuse - w4 * s\<bar> \<le> fivePrecision"
    "\<bar>Mul w5 s * precisionReuse - w5 * s\<bar> \<le> fivePrecision"
    by (rule Mul_error)+
  have "(w1 + w2 + w3 + w4 + w5) * s = precisionReuse * s"
    using assms by (simp add: OneDec_def)
  then have "x * precisionReuse =
      (Mul w1 s * precisionReuse - w1 * s) + (Mul w2 s * precisionReuse - w2 * s)
      + (Mul w3 s * precisionReuse - w3 * s) + (Mul w4 s * precisionReuse - w4 * s)
      + (Mul w5 s * precisionReuse - w5 * s)"
    unfolding x_def by (simp add: algebra_simps)
  with e have "\<bar>x * precisionReuse\<bar> \<le> 5 * fivePrecision" by linarith
  then have "\<bar>x\<bar> \<le> 2" by (rule scaled_bound)
  then show ?thesis unfolding x_def .
qed

lemma sum_list_abs_bound:
  fixes f :: "'a \<Rightarrow> int"
  assumes "\<forall>x\<in>set xs. \<bar>f x\<bar> \<le> c"
  shows "\<bar>\<Sum>x\<leftarrow>xs. f x\<bar> \<le> c * int (length xs)"
  using assms
proof (induction xs)
  case Nil
  then show ?case by simp
next
  case (Cons x xs)
  then have "\<bar>f x\<bar> \<le> c" "\<bar>\<Sum>x\<leftarrow>xs. f x\<bar> \<le> c * int (length xs)" by simp_all
  then show ?case by (simp add: algebra_simps)
qed

lemma sum_list_zero:
  fixes f :: "'a \<Rightarrow> int"
  assumes "\<forall>x\<in>set xs. f x = 0"
  shows "(\<Sum>x\<leftarrow>xs. f x) = 0"
  using assms by (induction xs) simp_all

text \<open>
  Claim C8, as the code has it.  In every airdrop that \<open>distribution\<close> returns the result
  distrib satisfies the equation exactly: its five votes plus its unstaked part are its
  supply, whatever the vote weights.  For the source distrib, let the five vote weights
  of every account add up to exactly one.  Then the equation holds exactly when every
  staked amount is a whole number, and in general up to the rounding of the products
  weight times staked amount: the difference is at most two units of the last decimal
  place (\<open>2 * 10^-18\<close>) per account.
\<close>

theorem conservation:
  assumes ret: "distribution lib accounts p prefix = Returned a e"
  shows "parts (atone a) = supply (atone a) \<and>
         ((\<forall>acc\<in>set accounts.
              voteWeights acc OptionYes + voteWeights acc OptionNo + voteWeights acc OptionNoWithVeto
                + voteWeights acc OptionAbstain + voteWeights acc OptionEmpty = OneDec \<and>
              (\<exists>n. StakedAmount acc = NewDec n))
            \<longrightarrow> parts (atom a) = supply (atom a)) \<and>
         ((\<forall>acc\<in>set accounts.
              voteWeights acc OptionYes + voteWeights acc OptionNo + voteWeights acc OptionNoWithVeto
                + voteWeights acc OptionAbstain + voteWeights acc OptionEmpty = OneDec)
            \<longrightarrow> \<bar>parts (atom a) - supply (atom a)\<bar> \<le> 2 * int (length accounts))"
proof (intro conjI impI)
  from ret obtain nvm a0 where
    run: "pass2 lib prefix (start p nvm (pass1 zeroDistrib accounts)) accounts = Next a0
          \<or> pass2 lib prefix (start p nvm (pass1 zeroDistrib accounts)) accounts = Stop (Returned a0 e)"
    and eq: "atone a0 = atone a"
    by (cases rule: distribution_Returned) auto
  from pass2_balance[OF run] eq
  have "parts (atone a) - supply (atone a) = parts zeroDistrib - supply zeroDistrib"
    by (simp add: start_fields)
  then show "parts (atone a) = supply (atone a)"
    by (simp add: parts_zeroDistrib)
next
  let ?f = "\<lambda>acc. Mul (voteWeights acc OptionYes) (StakedAmount acc)
        + Mul (voteWeights acc OptionNo) (StakedAmount acc)
        + Mul (voteWeights acc OptionNoWithVeto) (StakedAmount acc)
        + Mul (voteWeights acc OptionAbstain) (StakedAmount acc)
        + Mul (voteWeights acc OptionEmpty) (StakedAmount acc)
        - StakedAmount acc"
  note at = distribution_atom[OF ret, THEN conjunct1]
  have d: "parts (atom a) - supply (atom a) = (\<Sum>acc\<leftarrow>accounts. ?f acc)"
    unfolding at parts_pass1 parts_zeroDistrib by simp
  {
    assume h: "\<forall>acc\<in>set accounts.
              voteWeights acc OptionYes + voteWeights acc OptionNo + voteWeights acc OptionNoWithVeto
                + voteWeights acc OptionAbstain + voteWeights acc OptionEmpty = OneDec \<and>
              (\<exists>n. StakedAmount acc = NewDec n)"
    have "\<forall>acc\<in>set accounts. ?f acc = 0"
    proof
      fix acc assume "acc \<in> set accounts"
      with h obtain n where w: "voteWeights acc OptionYes + voteWeights acc OptionNo
                + voteWeights acc OptionNoWithVeto
                + voteWeights acc OptionAbstain + voteWeights acc OptionEmpty = OneDec"
        and n: "StakedAmount acc = NewDec n" by blast
      show "?f acc = 0" unfolding n by (rule products_whole[OF w])
    qed
    then have "(\<Sum>acc\<leftarrow>accounts. ?f acc) = 0" by (rule sum_list_zero)
    with d show "parts (atom a) = supply (atom a)" by simp
  }
  {
    assume h: "\<forall>acc\<in>set accounts.
              voteWeights acc OptionYes + voteWeights acc OptionNo + voteWeights acc OptionNoWithVeto
                + voteWeights acc OptionAbstain + voteWeights acc OptionEmpty = OneDec"
    have "\<forall>acc\<in>set accounts. \<bar>?f acc\<bar> \<le> 2"
    proof
      fix acc assume "acc \<in> set accounts"
      with h have w: "voteWeights acc OptionYes + voteWeights acc OptionNo
                + voteWeights acc OptionNoWithVeto
                + voteWeights acc OptionAbstain + voteWeights acc OptionEmpty = OneDec"
        by blast
      show "\<bar>?f acc\<bar> \<le> 2" by (rule products_bound[OF w])
    qed
    then have "\<bar>\<Sum>acc\<leftarrow>accounts. ?f acc\<bar> \<le> 2 * int (length accounts)"
      by (rule sum_list_abs_bound)
    with d show "\<bar>parts (atom a) - supply (atom a)\<bar> \<le> 2 * int (length accounts)" by simp
  }
qed

theorem conservation_witness:
  "\<exists>a b. distribution exampleSdk [yesVoter, nonVoter, dustHolder] defaultDistriParams [] = Returned a None \<and>
         parts (atone a) = supply (atone a) \<and> parts (atom a) = supply (atom a) \<and>
         distribution exampleSdk [splitVoter] defaultDistriParams [] = Returned b None \<and>
         parts (atone b) = supply (atone b) \<and>
         \<bar>parts (atom b) - supply (atom b)\<bar> \<le> 2 * int (length [splitVoter])"
proof -
  let ?o1 = "distribution exampleSdk [yesVoter, nonVoter, dustHolder] defaultDistriParams []"
  let ?o2 = "distribution exampleSdk [splitVoter] defaultDistriParams []"
  have "succeeded ?o1" by code_simp
  then obtain a where a: "?o1 = Returned a None"
    using succeeded_Returned by blast
  have "succeeded ?o2" by code_simp
  then obtain b where b: "?o2 = Returned b None"
    using succeeded_Returned by blast
  have h1: "\<forall>acc\<in>set [yesVoter, nonVoter, dustHolder].
              voteWeights acc OptionYes + voteWeights acc OptionNo + voteWeights acc OptionNoWithVeto
                + voteWeights acc OptionAbstain + voteWeights acc OptionEmpty = OneDec \<and>
              (\<exists>n. StakedAmount acc = NewDec n)"
  proof -
    have "StakedAmount yesVoter = NewDec 100" "StakedAmount nonVoter = NewDec 100"
      "StakedAmount dustHolder = NewDec 0"
      by (simp_all add: yesVoter_def nonVoter_def dustHolder_def ZeroDec_def NewDec_def)
    then have "\<exists>n. StakedAmount yesVoter = NewDec n" "\<exists>n. StakedAmount nonVoter = NewDec n"
      "\<exists>n. StakedAmount dustHolder = NewDec n" by blast+
    then show ?thesis
      by (simp add: yesVoter_def nonVoter_def dustHolder_def newVoteMap_def ZeroDec_def)
  qed
  have h2: "\<forall>acc\<in>set [splitVoter].
              voteWeights acc OptionYes + voteWeights acc OptionNo + voteWeights acc OptionNoWithVeto
                + voteWeights acc OptionAbstain + voteWeights acc OptionEmpty = OneDec"
    by (simp add: splitVoter_def newVoteMap_def ZeroDec_def OneDec_def NewDecWithPrec_def
        precisionReuse_def)
  note t1 = conservation[OF a]
  note t2 = conservation[OF b]
  have c1: "parts (atone a) = supply (atone a)" using t1 by (rule conjunct1)
  have c2: "parts (atom a) = supply (atom a)"
    using t1[THEN conjunct2, THEN conjunct1] h1 by (rule mp)
  have c3: "parts (atone b) = supply (atone b)" using t2 by (rule conjunct1)
  have c4: "\<bar>parts (atom b) - supply (atom b)\<bar> \<le> 2 * int (length [splitVoter])"
    using t2[THEN conjunct2, THEN conjunct2] h2 by (rule mp)
  show ?thesis
    by (rule exI[of _ a], rule exI[of _ b]) (intro conjI a b c1 c2 c3 c4)
qed

text \<open>
  The claim as stated fails for the source distrib: an account whose weights are one half
  Yes and one half No, and so add up to exactly one, with a staked amount of three units of
  the last decimal place, contributes two units to each of the two votes (each product
  \<open>1.5\<close> rounds to the even neighbour \<open>2\<close>), four in all, but three to the supply.
\<close>

theorem conservation_counterexample:
  "voteWeights splitVoter OptionYes + voteWeights splitVoter OptionNo
     + voteWeights splitVoter OptionNoWithVeto + voteWeights splitVoter OptionAbstain
     + voteWeights splitVoter OptionEmpty = OneDec \<and>
   map_option parts (returned_atom (distribution exampleSdk [splitVoter] defaultDistriParams []))
     = Some 1000000000000000004 \<and>
   map_option supply (returned_atom (distribution exampleSdk [splitVoter] defaultDistriParams []))
     = Some 1000000000000000003"
  by code_simp

section \<open>The solved multiplier as a solution\<close>

lemma val_eq: "val d = of_int d / of_int precisionReuse"
  by (simp add: val_def precisionReuse_def)

lemma bigQuo_error:
  assumes "y \<noteq> 0"
  shows "\<bar>(of_int (bigQuo x y) :: rat) - of_int x / of_int y\<bar> < 1"
proof -
  let ?q = "\<bar>x\<bar> div \<bar>y\<bar>"
  from assms have ypos: "0 < \<bar>y\<bar>" by simp
  have lo: "(of_int ?q :: rat) \<le> of_int \<bar>x\<bar> / of_int \<bar>y\<bar>"
    using ypos by (metis floor_divide_of_int_eq of_int_floor_le)
  have hi: "of_int \<bar>x\<bar> / of_int \<bar>y\<bar> < (of_int ?q :: rat) + 1"
  proof -
    have "\<bar>x\<bar> mod \<bar>y\<bar> < \<bar>y\<bar>" using ypos by (rule pos_mod_bound)
    moreover have "\<bar>x\<bar> = ?q * \<bar>y\<bar> + \<bar>x\<bar> mod \<bar>y\<bar>" by simp
    ultimately have "\<bar>x\<bar> < ?q * \<bar>y\<bar> + \<bar>y\<bar>" by linarith
    then have "(of_int \<bar>x\<bar> :: rat) < of_int (?q * \<bar>y\<bar> + \<bar>y\<bar>)"
      by (simp only: of_int_less_iff)
    then have "(of_int \<bar>x\<bar> :: rat) < (of_int ?q + 1) * of_int \<bar>y\<bar>"
      by (simp add: algebra_simps)
    then show ?thesis using ypos by (simp add: pos_divide_less_eq)
  qed
  have m: "\<bar>(of_int ?q :: rat) - of_int \<bar>x\<bar> / of_int \<bar>y\<bar>\<bar> < 1"
    using lo hi by linarith
  have s: "(of_int x :: rat) / of_int y = of_int (sgn x * sgn y) * (of_int \<bar>x\<bar> / of_int \<bar>y\<bar>)"
    using assms by (simp add: sgn_if abs_if)
  have "(of_int (bigQuo x y) :: rat) - of_int x / of_int y
          = of_int (sgn x * sgn y) * (of_int ?q - of_int \<bar>x\<bar> / of_int \<bar>y\<bar>)"
    unfolding s bigQuo_def by (simp add: algebra_simps)
  then have "\<bar>(of_int (bigQuo x y) :: rat) - of_int x / of_int y\<bar>
          = \<bar>of_int (sgn x * sgn y) :: rat\<bar> * \<bar>of_int ?q - of_int \<bar>x\<bar> / of_int \<bar>y\<bar>\<bar>"
    by (simp only: abs_mult)
  also have "\<dots> \<le> 1 * \<bar>(of_int ?q :: rat) - of_int \<bar>x\<bar> / of_int \<bar>y\<bar>\<bar>"
    by (intro mult_right_mono) (simp_all add: sgn_if)
  also have "\<dots> < 1" using m by simp
  finally show ?thesis .
qed


lemma chop_error_rat:
  "\<bar>(of_int (chopPrecisionAndRound d) :: rat) * of_int precisionReuse - of_int d\<bar> \<le> of_int fivePrecision"
proof -
  have "(of_int (chopPrecisionAndRound d) :: rat) * of_int precisionReuse - of_int d
          = of_int (chopPrecisionAndRound d * precisionReuse - d)"
    by simp
  then have "\<bar>(of_int (chopPrecisionAndRound d) :: rat) * of_int precisionReuse - of_int d\<bar>
          = of_int \<bar>chopPrecisionAndRound d * precisionReuse - d\<bar>"
    by (simp only: of_int_abs)
  also have "\<dots> \<le> of_int fivePrecision"
    using chop_error[of d] by (simp only: of_int_le_iff)
  finally show ?thesis .
qed

lemma Quo_error:
  assumes "Quo n d = Inr m"
  shows "d \<noteq> 0 \<and> \<bar>val m - val n / val d\<bar> \<le> 1 / 10 ^ 18"
proof -
  from assms have d0: "d \<noteq> 0" by (auto simp: Quo_def split: if_splits)
  define P :: rat where "P = of_int precisionReuse"
  define q where "q = bigQuo (n * precisionReuse * precisionReuse) d"
  from assms d0 have m: "m = chopPrecisionAndRound q" by (simp add: Quo_def q_def)
  have Ppos: "0 < P" by (simp add: P_def precisionReuse_def)
  have P18: "P = 10 ^ 18" by (simp add: P_def precisionReuse_def)
  have d0': "(of_int d :: rat) \<noteq> 0" using d0 by simp
  have e1: "\<bar>(of_int q :: rat) - of_int n * P * P / of_int d\<bar> < 1"
    using bigQuo_error[OF d0, of "n * precisionReuse * precisionReuse"]
    by (simp add: q_def P_def)
  have e2: "\<bar>(of_int m :: rat) * P - of_int q\<bar> \<le> P / 2"
    using chop_error_rat[of q] by (simp add: m P_def precisionReuse_def fivePrecision_def)
  have "\<bar>(of_int m :: rat) * P - of_int n * P * P / of_int d\<bar> \<le> P / 2 + 1"
    using e1 e2 by linarith
  moreover have "(of_int m :: rat) * P - of_int n * P * P / of_int d
        = (val m - val n / val d) * (P * P)"
    using Ppos d0' by (simp add: val_eq P_def[symmetric] field_simps)
  ultimately have "\<bar>(val m - val n / val d) * (P * P)\<bar> \<le> P / 2 + 1" by simp
  then have "\<bar>val m - val n / val d\<bar> * (P * P) \<le> P / 2 + 1"
    using Ppos by (simp add: abs_mult)
  also have "\<dots> \<le> P" by (simp add: P18)
  finally have "\<bar>val m - val n / val d\<bar> * (P * P) \<le> P" .
  then have "\<bar>val m - val n / val d\<bar> \<le> P / (P * P)"
    using Ppos by (simp add: pos_le_divide_eq)
  also have "P / (P * P) = 1 / 10 ^ 18" by (simp add: P18)
  finally show ?thesis using d0 by simp
qed

lemma share_solution:
  fixes y n pool m :: rat
  assumes "0 < pool" and "0 < y + n"
  shows "m * pool / (y + n + m * pool) = 33 / 100 \<longleftrightarrow>
         m = (33 / 100) * (y + n) / ((1 - 33 / 100) * pool)"
proof
  assume eq: "m * pool / (y + n + m * pool) = 33 / 100"
  have nz: "y + n + m * pool \<noteq> 0"
  proof
    assume "y + n + m * pool = 0"
    with eq show False by simp
  qed
  from eq nz have "m * pool * 100 = 33 * (y + n + m * pool)"
    by (simp add: field_simps)
  then have "67 * (m * pool) = 33 * (y + n)" by simp
  then have "m = 33 * (y + n) / (67 * pool)"
    using assms(1) by (simp add: field_simps)
  then show "m = (33 / 100) * (y + n) / ((1 - 33 / 100) * pool)"
    using assms(1) by (simp add: field_simps)
next
  assume m: "m = (33 / 100) * (y + n) / ((1 - 33 / 100) * pool)"
  then have m': "m * pool = 33 * (y + n) / 67"
    using assms(1) by (simp add: field_simps)
  have "y + n + m * pool = 100 * (y + n) / 67"
    unfolding m' by (simp add: field_simps)
  then show "m * pool / (y + n + m * pool) = 33 / 100"
    unfolding m' using assms(2) by (simp add: field_simps)
qed


lemma Mul_error_rat: "\<bar>val (Mul a b) - val a * val b\<bar> \<le> 1 / (2 * 10 ^ 18)"
proof -
  define P :: rat where "P = of_int precisionReuse"
  have Ppos: "0 < P" by (simp add: P_def precisionReuse_def)
  have P18: "P = 10 ^ 18" by (simp add: P_def precisionReuse_def)
  have "\<bar>(of_int (Mul a b) :: rat) * P - of_int (a * b)\<bar> \<le> P / 2"
    using chop_error_rat[of "a * b"]
    by (simp add: Mul_def P_def precisionReuse_def fivePrecision_def)
  moreover have "(of_int (Mul a b) :: rat) * P - of_int (a * b)
        = (val (Mul a b) - val a * val b) * (P * P)"
    using Ppos by (simp add: val_eq P_def[symmetric] field_simps)
  ultimately have "\<bar>(val (Mul a b) - val a * val b) * (P * P)\<bar> \<le> P / 2" by simp
  then have "\<bar>val (Mul a b) - val a * val b\<bar> * (P * P) \<le> P / 2"
    using Ppos by (simp add: abs_mult)
  then have "\<bar>val (Mul a b) - val a * val b\<bar> \<le> (P / 2) / (P * P)"
    using Ppos by (simp add: pos_le_divide_eq)
  also have "(P / 2) / (P * P) = 1 / (2 * 10 ^ 18)" by (simp add: P18)
  finally show ?thesis .
qed

lemma val_consts:
  "val targetNonVotersPerc = 33 / 100" "val (Sub OneDec targetNonVotersPerc) = 67 / 100"
  "val (Add a b) = val a + val b"
  by (simp_all add: val_def targetNonVotersPerc_def NewDecWithPrec_def Sub_def OneDec_def
      precisionReuse_def Add_def add_divide_distrib)

text \<open>
  Claim C9, as the code has it.  In exact arithmetic, for a positive pool and a positive
  voter-side total, a scalar \<open>m\<close> makes the non-voter share
  \<open>m * pool / (yesWeighted + noWeighted + m * pool)\<close> equal to \<open>0.33\<close> if and only if it is
  \<open>0.33 * (yesWeighted + noWeighted) / ((1 - 0.33) * pool)\<close>.  The multiplier the code
  solves is that formula in decimals of 18 places: the numerator and the denominator
  are each rounded (by at most half a unit of the last place), and the multiplier differs
  from the exact quotient of the two rounded values by at most one unit of the last
  place.  So it gives the target share up to rounding, not exactly.
\<close>

theorem solved_multiplier_up_to_rounding:
  fixes y n pool :: rat and yd nd pd md :: dec
  shows "(0 \<le> y \<longrightarrow> 0 \<le> n \<longrightarrow> 0 < pool \<longrightarrow> 0 < y + n \<longrightarrow>
            (\<forall>m. m * pool / (y + n + m * pool) = 33 / 100 \<longleftrightarrow>
                 m = (33 / 100) * (y + n) / ((1 - 33 / 100) * pool))) \<and>
         (solveNonVotersMultiplier yd nd pd = Inr md \<longrightarrow>
            \<bar>val (Mul targetNonVotersPerc (Add yd nd)) - (33 / 100) * (val yd + val nd)\<bar>
               \<le> 1 / (2 * 10 ^ 18) \<and>
            \<bar>val (Mul (Sub OneDec targetNonVotersPerc) pd) - (1 - 33 / 100) * val pd\<bar>
               \<le> 1 / (2 * 10 ^ 18) \<and>
            Mul (Sub OneDec targetNonVotersPerc) pd \<noteq> 0 \<and>
            \<bar>val md - val (Mul targetNonVotersPerc (Add yd nd))
                        / val (Mul (Sub OneDec targetNonVotersPerc) pd)\<bar> \<le> 1 / 10 ^ 18)"
proof (intro conjI impI allI)
  fix m assume "0 < pool" "0 < y + n"
  then show "m * pool / (y + n + m * pool) = 33 / 100 \<longleftrightarrow>
                 m = (33 / 100) * (y + n) / ((1 - 33 / 100) * pool)"
    by (rule share_solution)
next
  show "\<bar>val (Mul targetNonVotersPerc (Add yd nd)) - (33 / 100) * (val yd + val nd)\<bar>
               \<le> 1 / (2 * 10 ^ 18)"
    using Mul_error_rat[of targetNonVotersPerc "Add yd nd"] by (simp add: val_consts)
next
  show "\<bar>val (Mul (Sub OneDec targetNonVotersPerc) pd) - (1 - 33 / 100) * val pd\<bar>
               \<le> 1 / (2 * 10 ^ 18)"
    using Mul_error_rat[of "Sub OneDec targetNonVotersPerc" pd] by (simp add: val_consts)
next
  assume "solveNonVotersMultiplier yd nd pd = Inr md"
  then have q: "Quo (Mul targetNonVotersPerc (Add yd nd)) (Mul (Sub OneDec targetNonVotersPerc) pd)
                 = Inr md"
    by (simp add: solveNonVotersMultiplier_def)
  from Quo_error[OF q] show "Mul (Sub OneDec targetNonVotersPerc) pd \<noteq> 0" by simp
  from Quo_error[OF q]
  show "\<bar>val md - val (Mul targetNonVotersPerc (Add yd nd))
                        / val (Mul (Sub OneDec targetNonVotersPerc) pd)\<bar> \<le> 1 / 10 ^ 18"
    by simp
qed

lemmas dec_eval = ZeroDec_def OneDec_def NewDec_def NewDecWithPrec_def Add_def Sub_def Mul_def
  Quo_def bigQuo_def chopPrecisionAndRound_def precisionReuse_def fivePrecision_def
  targetNonVotersPerc_def solveNonVotersMultiplier_def Let_def

lemma solve_example: "solveNonVotersMultiplier OneDec ZeroDec OneDec = Inr 492537313432835821"
  by (simp add: dec_eval)

theorem solved_multiplier_up_to_rounding_witness:
  "((33 / 100) * (1 + 0) / ((1 - 33 / 100) * 1) * 1
      / (1 + 0 + (33 / 100) * (1 + 0) / ((1 - 33 / 100) * 1) * 1) = (33 / 100 :: rat)) \<and>
   solveNonVotersMultiplier OneDec ZeroDec OneDec = Inr 492537313432835821 \<and>
   \<bar>val 492537313432835821 - val (Mul targetNonVotersPerc (Add OneDec ZeroDec))
       / val (Mul (Sub OneDec targetNonVotersPerc) OneDec)\<bar> \<le> 1 / 10 ^ 18"
proof -
  note th = solved_multiplier_up_to_rounding[of 1 0 1 OneDec ZeroDec OneDec 492537313432835821]
  have h: "(0::rat) \<le> 1" "(0::rat) \<le> 0" "(0::rat) < 1" "(0::rat) < 1 + 0" by simp_all
  from th[THEN conjunct1, rule_format, OF h, of "(33 / 100) * (1 + 0) / ((1 - 33 / 100) * 1)"]
  have c1: "(33 / 100) * (1 + 0) / ((1 - 33 / 100) * 1) * 1
      / (1 + 0 + (33 / 100) * (1 + 0) / ((1 - 33 / 100) * 1) * 1) = (33 / 100 :: rat)"
    by blast
  from th[THEN conjunct2, rule_format, OF solve_example]
  have c2: "\<bar>val 492537313432835821 - val (Mul targetNonVotersPerc (Add OneDec ZeroDec))
       / val (Mul (Sub OneDec targetNonVotersPerc) OneDec)\<bar> \<le> 1 / 10 ^ 18"
    by blast
  show ?thesis by (intro conjI c1 solve_example c2)
qed

text \<open>
  The claim as stated fails.  For a weighted Yes total of one, no weighted No total and a
  pool of one, the solved multiplier is \<open>0.492537313432835821\<close>, the rounding of
  \<open>33/67\<close>, and the share it gives is not \<open>0.33\<close>.  For a weighted Yes total of one
  unit of the last decimal place the numerator rounds to zero, the multiplier is zero and
  so is the share, in exact arithmetic and in the arithmetic of the decimal type alike.
\<close>

theorem solved_multiplier_counterexample:
  "solveNonVotersMultiplier OneDec ZeroDec OneDec = Inr 492537313432835821 \<and>
   0 \<le> val OneDec \<and> 0 \<le> val ZeroDec \<and> 0 < val OneDec \<and> 0 < val OneDec + val ZeroDec \<and>
   val 492537313432835821 * val OneDec
     / (val OneDec + val ZeroDec + val 492537313432835821 * val OneDec) \<noteq> 33 / 100 \<and>
   solveNonVotersMultiplier 1 ZeroDec OneDec = Inr 0 \<and>
   0 < val 1 + val ZeroDec \<and>
   val 0 * val OneDec / (val 1 + val ZeroDec + val 0 * val OneDec) \<noteq> 33 / 100 \<and>
   Quo (Mul 0 OneDec) (Add (Add 1 ZeroDec) (Mul 0 OneDec)) = Inr 0 \<and>
   targetNonVotersPerc \<noteq> 0"
  by (simp add: dec_eval val_def)

end
